theory Spec2Isabelle
  imports Complex_Main
begin

section \<open>Geometry: vectors and axis-aligned boxes\<close>

text \<open>
  The viewer (\<^verbatim>\<open>src/frontend/src/main.ts\<close>, class \<^verbatim>\<open>FragmentViewer\<close>) works on
  \<^verbatim>\<open>THREE.Vector3\<close> and \<^verbatim>\<open>THREE.Box3\<close> values. JavaScript numbers are modelled as
  real numbers: rounding, infinities and NaN are outside the model. A freshly constructed
  \<^verbatim>\<open>new THREE.Box3()\<close> has its minimum at plus infinity and its maximum at minus infinity;
  it is the constructor \<open>EmptyBox\<close>, the neutral element of \<^verbatim>\<open>union\<close>.
\<close>

record vec3 =
  vx :: real
  vy :: real
  vz :: real

datatype box3 = EmptyBox | Box vec3 vec3

fun isEmpty :: "box3 \<Rightarrow> bool" where
  "isEmpty EmptyBox = True"
| "isEmpty (Box mn mx) = (vx mx < vx mn \<or> vy mx < vy mn \<or> vz mx < vz mn)"

fun box_union :: "box3 \<Rightarrow> box3 \<Rightarrow> box3" where
  "box_union EmptyBox b = b"
| "box_union (Box mn mx) EmptyBox = Box mn mx"
| "box_union (Box mn mx) (Box mn' mx') =
     Box \<lparr>vx = min (vx mn) (vx mn'), vy = min (vy mn) (vy mn'), vz = min (vz mn) (vz mn')\<rparr>
         \<lparr>vx = max (vx mx) (vx mx'), vy = max (vy mx) (vy mx'), vz = max (vz mx) (vz mx')\<rparr>"

definition zero_vec :: vec3 where
  "zero_vec = \<lparr>vx = 0, vy = 0, vz = 0\<rparr>"

fun getCenter :: "box3 \<Rightarrow> vec3" where
  "getCenter EmptyBox = zero_vec"
| "getCenter (Box mn mx) =
     (if isEmpty (Box mn mx) then zero_vec
      else \<lparr>vx = (vx mn + vx mx) * (1/2), vy = (vy mn + vy mx) * (1/2),
            vz = (vz mn + vz mx) * (1/2)\<rparr>)"

fun getSize :: "box3 \<Rightarrow> vec3" where
  "getSize EmptyBox = zero_vec"
| "getSize (Box mn mx) =
     (if isEmpty (Box mn mx) then zero_vec
      else \<lparr>vx = vx mx - vx mn, vy = vy mx - vy mn, vz = vz mx - vz mn\<rparr>)"

section \<open>Camera settings and the viewer state\<close>

record cameraSettings =
  nearPlane :: real
  farPlane :: real
  closeFitMultiplier :: real
  farFitMultiplier :: real
  closeHeightOffset :: real
  farHeightOffset :: real
  minimumDistance :: real
  mediumModelThreshold :: real
  largeModelThreshold :: real
  veryLargeModelThreshold :: real

definition defaultSettings :: cameraSettings where
  "defaultSettings = \<lparr>nearPlane = 1/10, farPlane = 50000,
     closeFitMultiplier = 5, farFitMultiplier = 8,
     closeHeightOffset = 2, farHeightOffset = 3,
     minimumDistance = 200, mediumModelThreshold = 100,
     largeModelThreshold = 500, veryLargeModelThreshold = 1000\<rparr>"

text \<open>
  The camera of the world: \<open>perspective\<close> says whether \<^verbatim>\<open>world.camera.three\<close> is a
  \<^verbatim>\<open>THREE.PerspectiveCamera\<close>; \<open>projectionUpdates\<close> counts the calls of
  \<^verbatim>\<open>updateProjectionMatrix\<close>. Position and target are what \<^verbatim>\<open>setLookAt\<close> (or
  \<^verbatim>\<open>position.copy\<close> and \<^verbatim>\<open>lookAt\<close> when there are no controls) was last given.
\<close>

record camera =
  perspective :: bool
  fov :: real
  near :: real
  far :: real
  cam_position :: vec3
  cam_target :: vec3
  projectionUpdates :: nat

type_synonym item = nat

text \<open>An awaited or plain call into the engine either throws or returns.\<close>

datatype 'a attempt = Threw | Returned 'a

datatype raycast_result = NoResult | Hit "item option"

text \<open>
  A loaded model handle is duck-typed in the source: every capability is probed before it
  is called. \<open>object_box\<close> is \<^verbatim>\<open>new THREE.Box3().setFromObject(model.object)\<close>, or
  \<open>None\<close> when \<^verbatim>\<open>model.object\<close> is missing or no \<^verbatim>\<open>Object3D\<close>. \<open>visible\<close> is the
  engine's visibility flag of each item of the model. The visibility primitives
  (\<^verbatim>\<open>setVisible\<close>, \<^verbatim>\<open>isVisible\<close>, \<^verbatim>\<open>toggleVisible\<close>) are taken to complete when present;
  \<^verbatim>\<open>getItemsOfCategories\<close> and \<^verbatim>\<open>raycast\<close> may throw.
\<close>

record loadedModel =
  fileName :: string
  object_box :: "box3 option"
  getItemsOfCategories :: "(string \<Rightarrow> item list attempt) option"
  has_setVisible :: bool
  has_isVisible :: bool
  has_toggleVisible :: bool
  visible :: "item \<Rightarrow> bool"
  raycast :: "(real \<times> real \<Rightarrow> raycast_result attempt) option"

datatype log_event =
    CameraFitLog real real bool
  | FoundItems nat string
  | ShowedItems nat string
  | HidItems nat string
  | NoItemsFound string
  | ToggleFailed string
  | FallbackSucceeded string
  | FallbackVariationFailed
  | RendererUnavailable
  | RaycastFailed string
  | ForcedRender

text \<open>
  The value of the \<^verbatim>\<open>localStorage\<close> item \<^verbatim>\<open>hiddenCategories\<close>: absent (or the empty
  text, for which the source parses \<^verbatim>\<open>'{}'\<close>), a text that \<^verbatim>\<open>JSON.parse\<close> rejects, or
  the text of a JSON value. Of the values inside an object or an array only the
  truthiness is kept, which is all the source reads (it only ever stores \<^verbatim>\<open>true\<close>); a
  hole of an array counts as a falsy element, which is what \<^verbatim>\<open>JSON.stringify\<close> makes of
  it. A numeral beyond the range of a double parses to an infinity, which
  \<^verbatim>\<open>JSON.stringify\<close> writes as \<^verbatim>\<open>null\<close>: it is the value \<open>JInfinite\<close>. Strings are taken
  to be ASCII. The storage quota and the length limit of
  \<^verbatim>\<open>JSON.stringify\<close> are outside the model.
\<close>

datatype json =
    JNull
  | JBoolean bool
  | JNumber real
  | JInfinite
  | JString string
  | JArray "bool list"
  | JObject "string \<rightharpoonup> bool"

datatype stored = Absent | Corrupt | Stored json

text \<open>What the properties panel shows.\<close>

datatype display =
    Placeholder
  | ComponentDetails string item
  | OtherContent

text \<open>
  The engine components reached through \<^verbatim>\<open>components.get\<close>: \<open>classifier_find\<close> is
  \<^verbatim>\<open>classifier.find({entities: [category]})\<close>, a list of model identifiers with the set of
  item identifiers found in each (\<open>None\<close> for an \<^verbatim>\<open>undefined\<close> entry);
  \<open>hider_throws b\<close> says whether \<^verbatim>\<open>hider.set(b, result)\<close> throws.
\<close>

record engine =
  classifier_find :: "string \<Rightarrow> (string \<times> item list option) list attempt"
  hider_throws :: "bool \<Rightarrow> bool"

record viewer =
  settings :: cameraSettings
  loadedModels :: "loadedModel list"
  cam :: camera
  hiddenCategories :: stored
  console :: "log_event list"
  propertiesContent :: "display option"
  fragments_ready :: bool
  renderer_ready :: bool
  components :: engine

section \<open>Camera framing\<close>

text \<open>
  \<^verbatim>\<open>fitCameraToModels(wide)\<close>, lines 484 to 560. The named intermediate values of the
  source are definitions of their own.
\<close>

definition maxDim_of :: "vec3 \<Rightarrow> real" where
  "maxDim_of sz = max (vx sz) (max (vy sz) (vz sz))"

definition distanceMultiplier :: "cameraSettings \<Rightarrow> bool \<Rightarrow> real" where
  "distanceMultiplier cs wide = (if wide then farFitMultiplier cs else closeFitMultiplier cs)"

definition cameraOffset :: "cameraSettings \<Rightarrow> bool \<Rightarrow> real" where
  "cameraOffset cs wide = (if wide then farHeightOffset cs else closeHeightOffset cs)"

definition baseDistance :: "cameraSettings \<Rightarrow> bool \<Rightarrow> real \<Rightarrow> real" where
  "baseDistance cs wide maxDim = max (maxDim * distanceMultiplier cs wide) (minimumDistance cs)"

definition modelScale :: "cameraSettings \<Rightarrow> real \<Rightarrow> real" where
  "modelScale cs maxDim =
     (let s0 = 1;
          s1 = (if maxDim > mediumModelThreshold cs then 2 else s0);
          s2 = (if maxDim > largeModelThreshold cs then 3 else s1);
          s3 = (if maxDim > veryLargeModelThreshold cs then 4 else s2)
      in s3)"

definition finalDistance :: "cameraSettings \<Rightarrow> bool \<Rightarrow> real \<Rightarrow> real" where
  "finalDistance cs wide maxDim = baseDistance cs wide maxDim * modelScale cs maxDim"

definition cameraPosition :: "cameraSettings \<Rightarrow> bool \<Rightarrow> vec3 \<Rightarrow> real \<Rightarrow> vec3" where
  "cameraPosition cs wide center maxDim =
     \<lparr>vx = vx center + finalDistance cs wide maxDim * (9/10),
      vy = vy center + finalDistance cs wide maxDim * cameraOffset cs wide,
      vz = vz center + finalDistance cs wide maxDim * (8/10)\<rparr>"

text \<open>The \<^verbatim>\<open>forEach\<close> over the loaded models: the combined box and the flag \<^verbatim>\<open>hasBox\<close>.\<close>

fun combineBoxes :: "loadedModel list \<Rightarrow> box3 \<times> bool \<Rightarrow> box3 \<times> bool" where
  "combineBoxes [] acc = acc"
| "combineBoxes (m # ms) (combinedBox, hasBox) =
     (case object_box m of
        None \<Rightarrow> combineBoxes ms (combinedBox, hasBox)
      | Some box \<Rightarrow>
          if \<not> isEmpty box then combineBoxes ms (box_union combinedBox box, True)
          else combineBoxes ms (combinedBox, hasBox))"

definition fitCameraToModels :: "bool \<Rightarrow> viewer \<Rightarrow> viewer" where
  "fitCameraToModels wide v =
     (if loadedModels v = [] then v
      else
        let (combinedBox, hasBox) = combineBoxes (loadedModels v) (EmptyBox, False)
        in if \<not> hasBox then v
           else
             let center = getCenter combinedBox;
                 sz = getSize combinedBox;
                 maxDim = maxDim_of sz
             in v\<lparr>cam := (cam v)\<lparr>cam_position := cameraPosition (settings v) wide center maxDim,
                                    cam_target := center\<rparr>,
                  console := console v @
                    [CameraFitLog maxDim (finalDistance (settings v) wide maxDim) wide]\<rparr>)"

text \<open>
  The far-plane step of \<^verbatim>\<open>fitAllModelsToView\<close>, lines 646 to 663, for a combined box
  with largest dimension \<open>maxDim\<close>. The division is the one of the reals: it agrees
  with the source for a field of view strictly between 0 and 180 degrees, where the
  tangent is defined and positive.
\<close>

definition fitAllDistance :: "camera \<Rightarrow> real \<Rightarrow> real" where
  "fitAllDistance c maxDim =
     (let fov' = (if perspective c then fov c else 60);
          baseFitDistance = maxDim / (2 * tan ((fov' * pi) / 360));
          safetyMargin = 3/2
      in baseFitDistance * safetyMargin)"

definition ensureFarPlane :: "cameraSettings \<Rightarrow> real \<Rightarrow> camera \<Rightarrow> camera" where
  "ensureFarPlane cs maxDim c =
     (if perspective c then
        let requiredFarPlane = fitAllDistance c maxDim + maxDim
        in if far c < requiredFarPlane
           then c\<lparr>far := max (requiredFarPlane * (12/10)) (farPlane cs),
                  projectionUpdates := Suc (projectionUpdates c)\<rparr>
           else c
      else c)"

section \<open>Category visibility\<close>

text \<open>
  Strings are lists of bytes; \<^verbatim>\<open>toLowerCase\<close> is modelled on the ASCII letters, which is
  where the category names of the viewer live. \<^verbatim>\<open>replace(pattern, replacement)\<close> with a
  string pattern replaces the first occurrence only.
\<close>

definition toLowerChar :: "char \<Rightarrow> char" where
  "toLowerChar c =
     (case map_of (zip ''ABCDEFGHIJKLMNOPQRSTUVWXYZ'' ''abcdefghijklmnopqrstuvwxyz'') c of
        Some d \<Rightarrow> d
      | None \<Rightarrow> c)"

definition toLowerCase :: "string \<Rightarrow> string" where
  "toLowerCase s = map toLowerChar s"

fun replace_first :: "string \<Rightarrow> string \<Rightarrow> string \<Rightarrow> string" where
  "replace_first pat rep [] = (if pat = [] then rep else [])"
| "replace_first pat rep (c # cs) =
     (if take (length pat) (c # cs) = pat then rep @ drop (length pat) (c # cs)
      else c # replace_first pat rep cs)"

definition variations :: "string \<Rightarrow> string list" where
  "variations category =
     [category,
      toLowerCase category,
      replace_first ''IFC'' [] category,
      toLowerCase (replace_first ''IFC'' [] category)]"

text \<open>The engine's visibility primitives on one model.\<close>

definition setVisible :: "item list \<Rightarrow> bool \<Rightarrow> loadedModel \<Rightarrow> loadedModel" where
  "setVisible itemIds b m = m\<lparr>visible := (\<lambda>i. if i \<in> set itemIds then b else visible m i)\<rparr>"

definition toggleVisible :: "item list \<Rightarrow> loadedModel \<Rightarrow> loadedModel" where
  "toggleVisible itemIds m =
     m\<lparr>visible := (\<lambda>i. if i \<in> set itemIds then \<not> visible m i else visible m i)\<rparr>"

text \<open>
  \<^verbatim>\<open>hider.set(visible, result)\<close> of the engine: every model named in the result has the
  items found in it set to the given visibility. The model identifier of a loaded model is
  its file name (\<^verbatim>\<open>fragments.load(arrayBuffer, {modelId: file.name})\<close>).
\<close>

definition hider_set ::
  "bool \<Rightarrow> (string \<times> item list option) list \<Rightarrow> loadedModel list \<Rightarrow> loadedModel list" where
  "hider_set b result ms =
     map (\<lambda>m. case map_of result (fileName m) of
                 Some (Some itemIds) \<Rightarrow> setVisible itemIds b m
               | _ \<Rightarrow> m) ms"

text \<open>
  \<^verbatim>\<open>forceRenderUpdate\<close> touches the renderer only; of the modelled state it changes the
  console, with the message it prints when renderer, scene and camera exist.
\<close>

definition forceRenderUpdate :: "viewer \<Rightarrow> viewer" where
  "forceRenderUpdate v =
     (if renderer_ready v then v\<lparr>console := console v @ [ForcedRender]\<rparr> else v)"

text \<open>
  \<^verbatim>\<open>toggleCategoryVisibilityFallback\<close>, lines 845 to 880. The inner loop over the name
  variations of one model either throws (the \<^verbatim>\<open>catch\<close> of that model takes over),
  finds nothing, or finds items under a variation and changes their visibility.
\<close>

datatype variation_outcome =
    VariationThrew
  | NoVariationMatched
  | VariationMatched string loadedModel

fun tryVariations :: "loadedModel \<Rightarrow> string list \<Rightarrow> variation_outcome" where
  "tryVariations m [] = NoVariationMatched"
| "tryVariations m (variation # rest) =
     (case getItemsOfCategories m of
        None \<Rightarrow> tryVariations m rest
      | Some getItems \<Rightarrow>
          (case getItems variation of
             Threw \<Rightarrow> VariationThrew
           | Returned itemIds \<Rightarrow>
               (case itemIds of
                  [] \<Rightarrow> tryVariations m rest
                | first # _ \<Rightarrow>
                    VariationMatched variation
                      (if has_setVisible m then
                         let isVisible = (if has_isVisible m then visible m first else True)
                         in setVisible itemIds (\<not> isVisible) m
                       else if has_toggleVisible m then toggleVisible itemIds m
                       else m))))"

text \<open>
  The outer loop over the loaded models. The \<^verbatim>\<open>return\<close> after a successful variation
  leaves the whole method, so the models after the first one with a match are not visited.
  The result is the updated model list, the console messages and whether a match was made.
\<close>

fun fallbackModels :: "string \<Rightarrow> loadedModel list \<Rightarrow> loadedModel list \<times> log_event list \<times> bool" where
  "fallbackModels category [] = ([], [], False)"
| "fallbackModels category (m # ms) =
     (case tryVariations m (variations category) of
        VariationMatched variation m' \<Rightarrow> (m' # ms, [FallbackSucceeded variation], True)
      | VariationThrew \<Rightarrow>
          (let (ms', logs, matched) = fallbackModels category ms
           in (m # ms', FallbackVariationFailed # logs, matched))
      | NoVariationMatched \<Rightarrow>
          (let (ms', logs, matched) = fallbackModels category ms
           in (m # ms', logs, matched)))"

definition toggleCategoryVisibilityFallback :: "string \<Rightarrow> viewer \<Rightarrow> viewer" where
  "toggleCategoryVisibilityFallback category v =
     (let (ms', logs, matched) = fallbackModels category (loadedModels v);
          v' = v\<lparr>loadedModels := ms', console := console v @ logs\<rparr>
      in if matched then forceRenderUpdate v' else v')"

text \<open>
  \<^verbatim>\<open>toggleCategoryVisibility\<close>, lines 700 to 775. The method is declared
  \<^verbatim>\<open>async\<close> and has no \<^verbatim>\<open>return\<close> with a value: what the caller gets is
  \<^verbatim>\<open>undefined\<close>. The number of items found is printed on the console.
\<close>

datatype js_value = Undefined | Number nat

definition totalItems :: "(string \<times> item list option) list \<Rightarrow> nat" where
  "totalItems result =
     sum_list (map (\<lambda>(modelId, itemIds).
                 case itemIds of None \<Rightarrow> 0 | Some ids \<Rightarrow> length (remdups ids)) result)"

text \<open>
  The source reads \<^verbatim>\<open>hiddenCategories[category]\<close>, writes
  \<^verbatim>\<open>hiddenCategories[category] = true\<close> and evaluates
  \<^verbatim>\<open>delete hiddenCategories[category]\<close> on whatever \<^verbatim>\<open>JSON.parse\<close> returned, in strict
  mode (the file is a module and the code is in a class body). A property read follows
  the prototype chain of the value. The tables are the string-keyed members of the
  standard prototypes (ECMAScript 2023 with Annex B); all of them are truthy.
\<close>

definition objectPrototype :: "string list" where
  "objectPrototype =
     [''constructor'', ''__defineGetter__'', ''__defineSetter__'', ''hasOwnProperty'',
      ''__lookupGetter__'', ''__lookupSetter__'', ''isPrototypeOf'',
      ''propertyIsEnumerable'', ''toString'', ''valueOf'', ''__proto__'',
      ''toLocaleString'']"

definition numberPrototype :: "string list" where
  "numberPrototype =
     [''constructor'', ''toExponential'', ''toFixed'', ''toLocaleString'', ''toPrecision'',
      ''toString'', ''valueOf'']"

definition stringPrototype :: "string list" where
  "stringPrototype =
     [''constructor'', ''anchor'', ''at'', ''big'', ''blink'', ''bold'', ''charAt'',
      ''charCodeAt'', ''codePointAt'', ''concat'', ''endsWith'', ''fontcolor'', ''fontsize'',
      ''fixed'', ''includes'', ''indexOf'', ''isWellFormed'', ''italics'', ''lastIndexOf'',
      ''link'', ''localeCompare'', ''match'', ''matchAll'', ''normalize'', ''padEnd'',
      ''padStart'', ''repeat'', ''replace'', ''replaceAll'', ''search'', ''slice'', ''small'',
      ''split'', ''strike'', ''sub'', ''substr'', ''substring'', ''sup'', ''startsWith'',
      ''toString'', ''toWellFormed'', ''trim'', ''trimStart'', ''trimLeft'', ''trimEnd'',
      ''trimRight'', ''toLocaleLowerCase'', ''toLocaleUpperCase'', ''toLowerCase'',
      ''toUpperCase'', ''valueOf'']"

definition arrayPrototype :: "string list" where
  "arrayPrototype =
     [''constructor'', ''at'', ''concat'', ''copyWithin'', ''fill'', ''find'', ''findIndex'',
      ''findLast'', ''findLastIndex'', ''lastIndexOf'', ''pop'', ''push'', ''reverse'',
      ''shift'', ''unshift'', ''slice'', ''sort'', ''splice'', ''includes'', ''indexOf'',
      ''join'', ''keys'', ''entries'', ''values'', ''forEach'', ''filter'', ''flat'',
      ''flatMap'', ''map'', ''every'', ''some'', ''reduce'', ''reduceRight'',
      ''toLocaleString'', ''toString'', ''toReversed'', ''toSorted'', ''toSpliced'',
      ''with'']"

text \<open>Whether a value inherits a member of the given name; \<^verbatim>\<open>null\<close> has no members.\<close>

fun inherited :: "json \<Rightarrow> string \<Rightarrow> bool" where
  "inherited JNull name = False"
| "inherited (JBoolean b) name = (name \<in> set objectPrototype)"
| "inherited (JNumber n) name = (name \<in> set numberPrototype \<or> name \<in> set objectPrototype)"
| "inherited JInfinite name = (name \<in> set numberPrototype \<or> name \<in> set objectPrototype)"
| "inherited (JString s) name = (name \<in> set stringPrototype \<or> name \<in> set objectPrototype)"
| "inherited (JArray xs) name = (name \<in> set arrayPrototype \<or> name \<in> set objectPrototype)"
| "inherited (JObject h) name = (name \<in> set objectPrototype)"

text \<open>
  The own properties of a string and of an array besides \<^verbatim>\<open>length\<close> are its indices: the
  names that are the decimal numeral of a natural number without a leading zero; an
  array index is below \<open>2^32 - 1\<close>.
\<close>

definition digitValue :: "char \<Rightarrow> nat option" where
  "digitValue c = map_of (zip ''0123456789'' [0, 1, 2, 3, 4, 5, 6, 7, 8, 9]) c"

fun decimal :: "string \<Rightarrow> nat \<Rightarrow> nat option" where
  "decimal [] acc = Some acc"
| "decimal (c # cs) acc =
     (case digitValue c of None \<Rightarrow> None | Some d \<Rightarrow> decimal cs (10 * acc + d))"

definition canonicalIndex :: "string \<Rightarrow> nat option" where
  "canonicalIndex name =
     (case name of
        [] \<Rightarrow> None
      | c # cs \<Rightarrow> if c = CHR ''0'' \<and> cs \<noteq> [] then None else decimal name 0)"

definition arrayIndex :: "string \<Rightarrow> nat option" where
  "arrayIndex name =
     (case canonicalIndex name of
        None \<Rightarrow> None
      | Some i \<Rightarrow> if i < 4294967295 then Some i else None)"

text \<open>
  The truthiness of \<^verbatim>\<open>value[name]\<close>; reading a property of \<^verbatim>\<open>null\<close> throws. A
  character of a string is a non-empty string, hence truthy.
\<close>

fun getProperty :: "json \<Rightarrow> string \<Rightarrow> bool attempt" where
  "getProperty JNull name = Threw"
| "getProperty (JBoolean b) name = Returned (inherited (JBoolean b) name)"
| "getProperty (JNumber n) name = Returned (inherited (JNumber n) name)"
| "getProperty JInfinite name = Returned (inherited JInfinite name)"
| "getProperty (JString s) name =
     Returned (case canonicalIndex name of
                 Some i \<Rightarrow> i < length s
               | None \<Rightarrow> if name = ''length'' then s \<noteq> [] else inherited (JString s) name)"
| "getProperty (JArray xs) name =
     Returned (case arrayIndex name of
                 Some i \<Rightarrow> i < length xs \<and> xs ! i
               | None \<Rightarrow> if name = ''length'' then xs \<noteq> [] else inherited (JArray xs) name)"
| "getProperty (JObject h) name =
     Returned (case h name of Some b \<Rightarrow> b | None \<Rightarrow> inherited (JObject h) name)"

text \<open>
  \<^verbatim>\<open>value[name] = true\<close>, as \<^verbatim>\<open>JSON.stringify\<close> sees the value afterwards. On a
  primitive the assignment throws in strict mode, except for \<^verbatim>\<open>__proto__\<close>, whose
  inherited setter ignores a value that is no object (an infinity is then written back as
  \<^verbatim>\<open>null\<close>). On an object that setter is
  reached when there is no own property of that name. On an array an index extends the
  array, \<^verbatim>\<open>length = true\<close> sets the length to 1, and any other property is not part of
  what \<^verbatim>\<open>JSON.stringify\<close> writes.
\<close>

fun setProperty :: "json \<Rightarrow> string \<Rightarrow> json attempt" where
  "setProperty JNull name = Threw"
| "setProperty (JBoolean b) name =
     (if name = ''__proto__'' then Returned (JBoolean b) else Threw)"
| "setProperty (JNumber n) name =
     (if name = ''__proto__'' then Returned (JNumber n) else Threw)"
| "setProperty JInfinite name = (if name = ''__proto__'' then Returned JNull else Threw)"
| "setProperty (JString s) name =
     (if name = ''__proto__'' then Returned (JString s) else Threw)"
| "setProperty (JArray xs) name =
     Returned (case arrayIndex name of
                 Some i \<Rightarrow> JArray ((xs @ replicate (Suc i - length xs) False)[i := True])
               | None \<Rightarrow>
                   if name = ''length'' then JArray (take 1 (xs @ [False])) else JArray xs)"
| "setProperty (JObject h) name =
     Returned (if name = ''__proto__'' \<and> h name = None then JObject h
               else JObject (h(name \<mapsto> True)))"

text \<open>
  \<^verbatim>\<open>delete value[name]\<close>, again as \<^verbatim>\<open>JSON.stringify\<close> sees the value afterwards. The
  indices and the length of a string and the length of an array cannot be deleted: in
  strict mode the attempt throws. A deleted array element leaves a hole. Deleting from a
  number does nothing, and an infinity is written back as \<^verbatim>\<open>null\<close>.
\<close>

fun deleteProperty :: "json \<Rightarrow> string \<Rightarrow> json attempt" where
  "deleteProperty JNull name = Threw"
| "deleteProperty (JBoolean b) name = Returned (JBoolean b)"
| "deleteProperty (JNumber n) name = Returned (JNumber n)"
| "deleteProperty JInfinite name = Returned JNull"
| "deleteProperty (JString s) name =
     (case canonicalIndex name of
        Some i \<Rightarrow> if i < length s then Threw else Returned (JString s)
      | None \<Rightarrow> if name = ''length'' then Threw else Returned (JString s))"
| "deleteProperty (JArray xs) name =
     (case arrayIndex name of
        Some i \<Rightarrow> Returned (JArray (if i < length xs then xs[i := False] else xs))
      | None \<Rightarrow> if name = ''length'' then Threw else Returned (JArray xs))"
| "deleteProperty (JObject h) name = Returned (JObject (h(name := None)))"

text \<open>\<^verbatim>\<open>JSON.parse(localStorage.getItem('hiddenCategories') || '{}')\<close>.\<close>

definition parseHidden :: "stored \<Rightarrow> json attempt" where
  "parseHidden st =
     (case st of
        Absent \<Rightarrow> Returned (JObject Map.empty)
      | Corrupt \<Rightarrow> Threw
      | Stored value \<Rightarrow> Returned value)"

text \<open>
  What \<^verbatim>\<open>hiddenCategories[category] || false\<close> gives for the stored registry: the
  hidden or shown state of the category as the toggle reads it, or an exception.
\<close>

definition readEntry :: "stored \<Rightarrow> string \<Rightarrow> bool attempt" where
  "readEntry st category =
     (case parseHidden st of
        Threw \<Rightarrow> Threw
      | Returned parsed \<Rightarrow> getProperty parsed category)"

definition isHidden :: "stored \<Rightarrow> string \<Rightarrow> bool" where
  "isHidden st category = (readEntry st category = Returned True)"

text \<open>
  The body of the \<^verbatim>\<open>try\<close> block: the state it leaves, and whether it completed
  (\<open>True\<close>) or threw (\<open>False\<close>).
\<close>

definition toggle_try :: "string \<Rightarrow> viewer \<Rightarrow> bool \<times> viewer" where
  "toggle_try category v =
     (case classifier_find (components v) category of
        Threw \<Rightarrow> (False, v)
      | Returned result \<Rightarrow>
          let total = totalItems result;
              v1 = v\<lparr>console := console v @ [FoundItems total category]\<rparr>
          in if total > 0 then
               (case parseHidden (hiddenCategories v1) of
                  Threw \<Rightarrow> (False, v1)
                | Returned parsed \<Rightarrow>
                    (case getProperty parsed category of
                       Threw \<Rightarrow> (False, v1)
                     | Returned categoryCurrentlyHidden \<Rightarrow>
                         if categoryCurrentlyHidden then
                           (if hider_throws (components v1) True then (False, v1)
                            else
                              let v2 = v1\<lparr>loadedModels :=
                                          hider_set True result (loadedModels v1)\<rparr>
                              in case parseHidden (hiddenCategories v2) of
                                   Threw \<Rightarrow> (False, v2)
                                 | Returned parsed' \<Rightarrow>
                                     (case deleteProperty parsed' category of
                                        Threw \<Rightarrow> (False, v2)
                                      | Returned written \<Rightarrow>
                                          (True, forceRenderUpdate
                                             (v2\<lparr>hiddenCategories := Stored written,
                                                 console := console v2 @
                                                   [ShowedItems total category]\<rparr>))))
                         else
                           (if hider_throws (components v1) False then (False, v1)
                            else
                              let v2 = v1\<lparr>loadedModels :=
                                          hider_set False result (loadedModels v1)\<rparr>
                              in case parseHidden (hiddenCategories v2) of
                                   Threw \<Rightarrow> (False, v2)
                                 | Returned parsed' \<Rightarrow>
                                     (case setProperty parsed' category of
                                        Threw \<Rightarrow> (False, v2)
                                      | Returned written \<Rightarrow>
                                          (True, forceRenderUpdate
                                             (v2\<lparr>hiddenCategories := Stored written,
                                                 console := console v2 @
                                                   [HidItems total category]\<rparr>))))))
             else
               (True, toggleCategoryVisibilityFallback category
                        (v1\<lparr>console := console v1 @ [NoItemsFound category]\<rparr>)))"

definition toggleCategoryVisibility :: "string \<Rightarrow> viewer \<Rightarrow> viewer \<times> js_value" where
  "toggleCategoryVisibility category v =
     (if loadedModels v = [] then (v, Undefined)
      else
        let (completed, v') = toggle_try category v
        in if completed then (v', Undefined)
           else (toggleCategoryVisibilityFallback category
                   (v'\<lparr>console := console v' @ [ToggleFailed category]\<rparr>), Undefined))"

section \<open>Picking\<close>

text \<open>
  The click listener installed by \<^verbatim>\<open>setupPicking\<close>, lines 1074 to 1118. The loop over
  the models gives the console messages and the first hit, if any.
\<close>

fun raycastModels ::
  "real \<times> real \<Rightarrow> bool \<Rightarrow> loadedModel list \<Rightarrow> log_event list \<times> (loadedModel \<times> item) option" where
  "raycastModels mouse rr [] = ([], None)"
| "raycastModels mouse rr (m # ms) =
     (case raycast m of
        None \<Rightarrow> raycastModels mouse rr ms
      | Some cast \<Rightarrow>
          if \<not> rr then
            (let (logs, found) = raycastModels mouse rr ms in (RendererUnavailable # logs, found))
          else
            (case cast mouse of
               Threw \<Rightarrow>
                 (let (logs, found) = raycastModels mouse rr ms
                  in (RaycastFailed (fileName m) # logs, found))
             | Returned NoResult \<Rightarrow> raycastModels mouse rr ms
             | Returned (Hit None) \<Rightarrow> raycastModels mouse rr ms
             | Returned (Hit (Some localId)) \<Rightarrow> ([], Some (m, localId))))"

text \<open>
  \<^verbatim>\<open>displayComponentProperties\<close> writes the panel, if there is one: the table of the
  component's properties, a notice that it has none, or an error notice. All three are
  about the component just picked and are the one value \<open>ComponentDetails\<close> here.
\<close>

definition displayComponentProperties :: "loadedModel \<Rightarrow> item \<Rightarrow> viewer \<Rightarrow> viewer" where
  "displayComponentProperties m localId v =
     (case propertiesContent v of
        None \<Rightarrow> v
      | Some _ \<Rightarrow> v\<lparr>propertiesContent := Some (ComponentDetails (fileName m) localId)\<rparr>)"

definition setupPicking_click :: "real \<times> real \<Rightarrow> viewer \<Rightarrow> viewer" where
  "setupPicking_click mouse v =
     (if \<not> fragments_ready v \<or> loadedModels v = [] then v
      else
        let (logs, found) = raycastModels mouse (renderer_ready v) (loadedModels v);
            v1 = v\<lparr>console := console v @ logs\<rparr>
        in case found of
             Some (m, localId) \<Rightarrow> displayComponentProperties m localId v1
           | None \<Rightarrow>
               (case propertiesContent v1 of
                  None \<Rightarrow> v1
                | Some _ \<Rightarrow> v1\<lparr>propertiesContent := Some Placeholder\<rparr>))"

section \<open>Model readiness\<close>

text \<open>
  \<^verbatim>\<open>waitForModelReady\<close>, lines 1654 to 1718. Time is read from \<^verbatim>\<open>Date.now()\<close>, in
  milliseconds. The environment gives the reading taken when the method starts and, for
  the \<open>k\<close>-th run of \<^verbatim>\<open>checkReady\<close>, the reading taken there and what the two probes
  of the model meet: the scan of \<^verbatim>\<open>model.object.children\<close> (throws, or says whether a
  child has a position attribute with a positive count) and, when the model has
  \<^verbatim>\<open>boundingBoxes\<close>, the call of \<^verbatim>\<open>getMergedBox\<close> (throws, rejects, or settles with a
  box that is present and not empty, or not). The promise of \<^verbatim>\<open>getMergedBox\<close> is taken
  to settle before the next timer fires.
\<close>

datatype child_probe = ChildrenThrow | Children bool

datatype merged_probe = NoBoundingBoxes | MergedThrows | MergedRejects | MergedBox bool

record poll_obs =
  now :: int
  children :: child_probe
  merged :: merged_probe

record wait_env =
  startTime :: int
  polls :: "nat \<Rightarrow> poll_obs"

datatype wait_event = TimeoutWarning int | ReadyLog int | ReadinessError | Resolve

definition checkInterval :: int where
  "checkInterval = 50"

text \<open>
  One run of \<^verbatim>\<open>checkReady\<close> and, through \<^verbatim>\<open>setTimeout(checkReady, checkInterval)\<close>,
  the runs after it. The result is the sequence of console messages and calls of
  \<^verbatim>\<open>resolve\<close>, each with the number of the run it belongs to, once no further run is
  scheduled; \<open>None\<close> when the runs never end. A merged box that is ready resolves the
  promise from the \<^verbatim>\<open>then\<close> callback, whose \<^verbatim>\<open>return\<close> leaves the callback only:
  the next run is scheduled all the same.
\<close>

partial_function (option) checkReady ::
  "wait_env \<Rightarrow> int \<Rightarrow> nat \<Rightarrow> (nat \<times> wait_event) list \<Rightarrow> (nat \<times> wait_event) list option" where
  "checkReady env maxWaitTime k evs =
     (if now (polls env k) - startTime env > maxWaitTime
      then Some (evs @ [(k, TimeoutWarning maxWaitTime), (k, Resolve)])
      else
        (case children (polls env k) of
           ChildrenThrow \<Rightarrow> checkReady env maxWaitTime (Suc k) (evs @ [(k, ReadinessError)])
         | Children hasValidGeometry \<Rightarrow>
             if hasValidGeometry
             then Some (evs @ [(k, ReadyLog (now (polls env k) - startTime env)), (k, Resolve)])
             else
               (case merged (polls env k) of
                  NoBoundingBoxes \<Rightarrow> checkReady env maxWaitTime (Suc k) evs
                | MergedThrows \<Rightarrow>
                    checkReady env maxWaitTime (Suc k) (evs @ [(k, ReadinessError)])
                | MergedRejects \<Rightarrow> checkReady env maxWaitTime (Suc k) evs
                | MergedBox ready \<Rightarrow>
                    if ready
                    then checkReady env maxWaitTime (Suc k)
                           (evs @ [(k, ReadyLog (now (polls env k) - startTime env)),
                                   (k, Resolve)])
                    else checkReady env maxWaitTime (Suc k) evs)))"

definition waitForModelReady :: "wait_env \<Rightarrow> int \<Rightarrow> (nat \<times> wait_event) list option" where
  "waitForModelReady env maxWaitTime = checkReady env maxWaitTime 0 []"

text \<open>
  The promise is resolved by the first call of \<^verbatim>\<open>resolve\<close>; the messages before it are
  what the console shows when the caller's \<^verbatim>\<open>await\<close> continues.
\<close>

definition untilResolved :: "(nat \<times> wait_event) list \<Rightarrow> (nat \<times> wait_event) list" where
  "untilResolved evs = takeWhile (\<lambda>e. snd e \<noteq> Resolve) evs"

definition elapsed :: "wait_env \<Rightarrow> nat \<Rightarrow> int" where
  "elapsed env k = now (polls env k) - startTime env"

definition geometryAt :: "wait_env \<Rightarrow> nat \<Rightarrow> bool" where
  "geometryAt env k =
     (children (polls env k) = Children True \<or>
      (children (polls env k) = Children False \<and> merged (polls env k) = MergedBox True))"

text \<open>
  The timer is honoured when the first run reads the clock no earlier than the start and
  each later run reads it at least \<open>checkInterval\<close> after the run before.
\<close>

definition timer_honoured :: "wait_env \<Rightarrow> bool" where
  "timer_honoured env \<longleftrightarrow>
     startTime env \<le> now (polls env 0) \<and>
     (\<forall>k. now (polls env k) + checkInterval \<le> now (polls env (Suc k)))"

text \<open>What a run that is neither late nor ready by its children adds before the next run.\<close>

definition run_events :: "wait_env \<Rightarrow> nat \<Rightarrow> (nat \<times> wait_event) list" where
  "run_events env k =
     (case children (polls env k) of
        ChildrenThrow \<Rightarrow> [(k, ReadinessError)]
      | Children _ \<Rightarrow>
          (case merged (polls env k) of
             NoBoundingBoxes \<Rightarrow> []
           | MergedThrows \<Rightarrow> [(k, ReadinessError)]
           | MergedRejects \<Rightarrow> []
           | MergedBox ready \<Rightarrow>
               if ready then [(k, ReadyLog (elapsed env k)), (k, Resolve)] else []))"

text \<open>What the last run adds: it is late, or it finds geometry in the children.\<close>

definition final_events :: "wait_env \<Rightarrow> int \<Rightarrow> nat \<Rightarrow> (nat \<times> wait_event) list" where
  "final_events env maxWaitTime k =
     (if maxWaitTime < elapsed env k
      then [(k, TimeoutWarning maxWaitTime), (k, Resolve)]
      else [(k, ReadyLog (elapsed env k)), (k, Resolve)])"

section \<open>Notions used in the statements\<close>

text \<open>A model reports a hit when its ray cast can run and returns an item identifier.\<close>

definition reportsHit :: "real \<times> real \<Rightarrow> bool \<Rightarrow> loadedModel \<Rightarrow> bool" where
  "reportsHit mouse rr m =
     (case raycast m of
        None \<Rightarrow> False
      | Some cast \<Rightarrow>
          rr \<and> (case cast mouse of Returned (Hit (Some _)) \<Rightarrow> True | _ \<Rightarrow> False))"

text \<open>
  What one run of the primary path of the toggle makes of a parsed registry: the entry is
  deleted when it reads as hidden and set otherwise; \<open>registryAfter\<close> is the stored
  registry after it, unchanged when parsing, reading or writing throws.
\<close>

definition writeBack :: "json \<Rightarrow> string \<Rightarrow> json attempt" where
  "writeBack parsed category =
     (case getProperty parsed category of
        Threw \<Rightarrow> Threw
      | Returned hid \<Rightarrow>
          if hid then deleteProperty parsed category else setProperty parsed category)"

definition toggled :: "json \<Rightarrow> string \<Rightarrow> json" where
  "toggled parsed category =
     (case writeBack parsed category of Threw \<Rightarrow> parsed | Returned written \<Rightarrow> written)"

definition registryAfter :: "string \<Rightarrow> stored \<Rightarrow> stored" where
  "registryAfter category st =
     (case parseHidden st of
        Threw \<Rightarrow> st
      | Returned parsed \<Rightarrow>
          (case writeBack parsed category of Threw \<Rightarrow> st | Returned written \<Rightarrow> Stored written))"

text \<open>
  The primary path reaches the registry when models are loaded, the classifier finds
  items and the hider completes for the state that the registry shows.
\<close>

definition primaryRuns :: "string \<Rightarrow> viewer \<Rightarrow> bool" where
  "primaryRuns category v =
     (loadedModels v \<noteq> [] \<and>
      (case classifier_find (components v) category of
         Threw \<Rightarrow> False
       | Returned result \<Rightarrow> 0 < totalItems result) \<and>
      (case readEntry (hiddenCategories v) category of
         Threw \<Rightarrow> True
       | Returned hid \<Rightarrow> \<not> hider_throws (components v) hid))"

text \<open>
  The registries on which two toggles do not cancel: an object with a falsy entry under
  a name that \<^verbatim>\<open>Object.prototype\<close> defines as well (deleting the entry uncovers the
  inherited member), the empty array with the name \<^verbatim>\<open>length\<close> (the assignment makes
  the array non-empty and the length cannot be deleted), and an infinity with a name
  that numbers inherit (it is written back as \<^verbatim>\<open>null\<close>, which cannot be read).
\<close>

definition shadowsBuiltin :: "stored \<Rightarrow> string \<Rightarrow> bool" where
  "shadowsBuiltin st category =
     (case st of
        Stored (JObject h) \<Rightarrow> h category = Some False \<and> category \<in> set objectPrototype
      | Stored (JArray xs) \<Rightarrow> xs = [] \<and> category = ''length''
      | Stored JInfinite \<Rightarrow> inherited JInfinite category
      | _ \<Rightarrow> False)"


section \<open>Example states\<close>

definition cube_model :: "real \<Rightarrow> loadedModel" where
  "cube_model side =
     \<lparr>fileName = ''cube.frag'',
      object_box = Some (Box \<lparr>vx = 0, vy = 0, vz = 0\<rparr> \<lparr>vx = side, vy = side, vz = side\<rparr>),
      getItemsOfCategories = None, has_setVisible = False, has_isVisible = False,
      has_toggleVisible = False, visible = (\<lambda>_. True), raycast = None\<rparr>"

definition initial_camera :: camera where
  "initial_camera =
     \<lparr>perspective = True, fov = 60, near = 1/10, far = 50000,
      cam_position = \<lparr>vx = 50, vy = 50, vz = 50\<rparr>, cam_target = zero_vec,
      projectionUpdates = 1\<rparr>"

definition quiet_engine :: engine where
  "quiet_engine = \<lparr>classifier_find = (\<lambda>_. Returned []), hider_throws = (\<lambda>_. False)\<rparr>"

definition viewer_of :: "loadedModel list \<Rightarrow> viewer" where
  "viewer_of ms =
     \<lparr>settings = defaultSettings, loadedModels = ms, cam = initial_camera,
      hiddenCategories = Absent, console = [], propertiesContent = Some Placeholder,
      fragments_ready = True, renderer_ready = True, components = quiet_engine\<rparr>"

definition wall_ids :: "item list" where
  "wall_ids = [1, 2, 3, 4, 5, 6, 7, 8, 9, 10, 11, 12]"

definition wall_model :: loadedModel where
  "wall_model =
     \<lparr>fileName = ''walls.frag'', object_box = None,
      getItemsOfCategories = Some (\<lambda>c. Returned (if c = ''IFCWALL'' then wall_ids else [])),
      has_setVisible = True, has_isVisible = True, has_toggleVisible = False,
      visible = (\<lambda>_. True), raycast = Some (\<lambda>_. Returned NoResult)\<rparr>"

definition wall_engine :: engine where
  "wall_engine =
     \<lparr>classifier_find =
        (\<lambda>c. Returned (if c = ''IFCWALL'' then [(''walls.frag'', Some wall_ids)] else [])),
      hider_throws = (\<lambda>_. False)\<rparr>"

definition wall_viewer :: viewer where
  "wall_viewer = (viewer_of [wall_model])\<lparr>components := wall_engine\<rparr>"

definition hider_completes :: "bool \<Rightarrow> bool" where
  "hider_completes visibility = False"

definition hiding_throws :: "bool \<Rightarrow> bool" where
  "hiding_throws visibility = (\<not> visibility)"

definition finding_engine :: "(bool \<Rightarrow> bool) \<Rightarrow> engine" where
  "finding_engine throws =
     \<lparr>classifier_find = (\<lambda>c. Returned [(''walls.frag'', Some wall_ids)]),
      hider_throws = throws\<rparr>"

definition registry_viewer :: "(bool \<Rightarrow> bool) \<Rightarrow> json \<Rightarrow> viewer" where
  "registry_viewer throws registry =
     (viewer_of [wall_model])
       \<lparr>components := finding_engine throws, hiddenCategories := Stored registry\<rparr>"

definition lower_model :: "string \<Rightarrow> loadedModel" where
  "lower_model name =
     \<lparr>fileName = name, object_box = None,
      getItemsOfCategories = Some (\<lambda>c. Returned (if c = ''ifcwall'' then [1, 2] else [])),
      has_setVisible = True, has_isVisible = True, has_toggleVisible = False,
      visible = (\<lambda>_. True), raycast = None\<rparr>"

definition never_ready :: wait_env where
  "never_ready =
     \<lparr>startTime = 0,
      polls = (\<lambda>k. \<lparr>now = 50 * int k, children = Children False, merged = NoBoundingBoxes\<rparr>)\<rparr>"

definition merged_only :: wait_env where
  "merged_only =
     \<lparr>startTime = 0,
      polls = (\<lambda>k. \<lparr>now = 50 * int k, children = Children False, merged = MergedBox True\<rparr>)\<rparr>"

definition ready_at_once :: wait_env where
  "ready_at_once =
     \<lparr>startTime = 0,
      polls = (\<lambda>k. \<lparr>now = 50 * int k, children = Children True, merged = NoBoundingBoxes\<rparr>)\<rparr>"

section \<open>Properties of the camera framing\<close>

lemma modelScale_cases:
  "modelScale cs d =
     (if d > veryLargeModelThreshold cs then 4
      else if d > largeModelThreshold cs then 3
      else if d > mediumModelThreshold cs then 2 else 1)"
  by (simp add: modelScale_def Let_def)

lemma modelScale_mono: "a \<le> b \<Longrightarrow> modelScale cs a \<le> modelScale cs b"
  by (auto simp: modelScale_cases)

lemma modelScale_ge1: "1 \<le> modelScale cs d"
  by (simp add: modelScale_cases)

lemma baseDistance_ge_minimum: "minimumDistance cs \<le> baseDistance cs wide d"
  by (simp add: baseDistance_def)

lemma baseDistance_nonneg:
  assumes "0 \<le> minimumDistance cs \<or> 0 \<le> distanceMultiplier cs wide" and "0 \<le> d"
  shows "0 \<le> baseDistance cs wide d"
proof (cases "0 \<le> minimumDistance cs")
  case True
  then show ?thesis by (simp add: baseDistance_def max_def)
next
  case False
  with assms have "0 \<le> d * distanceMultiplier cs wide" by simp
  then show ?thesis by (simp add: baseDistance_def max_def)
qed

lemma baseDistance_mono:
  assumes "0 \<le> minimumDistance cs \<or> 0 \<le> distanceMultiplier cs wide"
    and "0 \<le> a" and "a \<le> b"
  shows "baseDistance cs wide a \<le> baseDistance cs wide b"
proof (cases "0 \<le> distanceMultiplier cs wide")
  case True
  with assms have "a * distanceMultiplier cs wide \<le> b * distanceMultiplier cs wide"
    by (simp add: mult_right_mono)
  then show ?thesis by (auto simp: baseDistance_def max_def)
next
  case False
  with assms have m: "0 \<le> minimumDistance cs" by simp
  from False assms have "a * distanceMultiplier cs wide \<le> 0"
    by (simp add: mult_nonneg_nonpos)
  with m have "baseDistance cs wide a = minimumDistance cs"
    by (simp add: baseDistance_def max_def)
  then show ?thesis by (simp add: baseDistance_ge_minimum)
qed

lemma finalDistance_ge_minimum:
  assumes "0 \<le> minimumDistance cs \<or> 0 \<le> distanceMultiplier cs wide" and "0 \<le> d"
  shows "minimumDistance cs \<le> finalDistance cs wide d"
proof -
  have b: "0 \<le> baseDistance cs wide d" using assms by (rule baseDistance_nonneg)
  have "baseDistance cs wide d * 1 \<le> baseDistance cs wide d * modelScale cs d"
    using b modelScale_ge1 [of cs d] by (rule mult_left_mono [rotated])
  then show ?thesis
    using baseDistance_ge_minimum [of cs wide d] by (simp add: finalDistance_def)
qed

text \<open>
  The combined box of the loop is either the fresh box or a box that is not empty, and it
  is not empty once \<^verbatim>\<open>hasBox\<close> is set; so its largest dimension is not negative.
\<close>

lemma box_union_nonempty:
  "\<not> isEmpty b \<Longrightarrow> (a = EmptyBox \<or> \<not> isEmpty a) \<Longrightarrow> \<not> isEmpty (box_union a b)"
  by (cases a; cases b) (auto simp: min_def max_def)

lemma combineBoxes_inv:
  "combineBoxes ms (cb, hb) = (cb', hb') \<Longrightarrow> (cb = EmptyBox \<or> \<not> isEmpty cb) \<Longrightarrow>
   (hb \<longrightarrow> \<not> isEmpty cb) \<Longrightarrow> (cb' = EmptyBox \<or> \<not> isEmpty cb') \<and> (hb' \<longrightarrow> \<not> isEmpty cb')"
proof (induction ms arbitrary: cb hb)
  case Nil
  then show ?case by simp
next
  case (Cons m ms)
  show ?case
  proof (cases "object_box m")
    case None
    with Cons.prems(1) have "combineBoxes ms (cb, hb) = (cb', hb')" by simp
    then show ?thesis using Cons.prems(2,3) by (rule Cons.IH)
  next
    case (Some box)
    show ?thesis
    proof (cases "isEmpty box")
      case True
      with Some Cons.prems(1) have "combineBoxes ms (cb, hb) = (cb', hb')" by simp
      then show ?thesis using Cons.prems(2,3) by (rule Cons.IH)
    next
      case False
      with Some Cons.prems(1) have c: "combineBoxes ms (box_union cb box, True) = (cb', hb')"
        by simp
      have n: "\<not> isEmpty (box_union cb box)"
        using False Cons.prems(2) by (rule box_union_nonempty)
      show ?thesis using c by (rule Cons.IH) (simp_all add: n)
    qed
  qed
qed

lemma maxDim_nonneg: "\<not> isEmpty b \<Longrightarrow> 0 \<le> maxDim_of (getSize b)"
  by (cases b) (auto simp: maxDim_of_def max_def)

lemma combined_maxDim_nonneg:
  assumes "combineBoxes ms (EmptyBox, False) = (cb, True)"
  shows "0 \<le> maxDim_of (getSize cb)"
proof -
  from combineBoxes_inv [OF assms] have "\<not> isEmpty cb" by simp
  then show ?thesis by (rule maxDim_nonneg)
qed

lemma fitCameraToModels_unfold:
  assumes "combineBoxes (loadedModels v) (EmptyBox, False) = (cb, True)"
  shows "fitCameraToModels wide v =
     v\<lparr>cam := (cam v)\<lparr>cam_position :=
                 cameraPosition (settings v) wide (getCenter cb) (maxDim_of (getSize cb)),
               cam_target := getCenter cb\<rparr>,
       console := console v @
         [CameraFitLog (maxDim_of (getSize cb))
            (finalDistance (settings v) wide (maxDim_of (getSize cb))) wide]\<rparr>"
proof -
  from assms have "loadedModels v \<noteq> []" by (cases "loadedModels v") auto
  with assms show ?thesis by (simp add: fitCameraToModels_def Let_def)
qed

text \<open>
  The close and far fit never write the far plane; the far-plane step of
  \<^verbatim>\<open>fitAllModelsToView\<close> makes it large enough for a perspective camera.
\<close>

lemma fitCameraToModels_far: "far (cam (fitCameraToModels wide v)) = far (cam v)"
  by (simp add: fitCameraToModels_def Let_def split: prod.splits)

lemma ensureFarPlane_sufficient:
  assumes "perspective c" and "0 \<le> fitAllDistance c maxDim + maxDim"
  shows "fitAllDistance c maxDim + maxDim \<le> far (ensureFarPlane cs maxDim c)"
proof (cases "far c < fitAllDistance c maxDim + maxDim")
  case True
  have "fitAllDistance c maxDim + maxDim \<le> (fitAllDistance c maxDim + maxDim) * (12/10)"
    using assms(2) by simp
  with True assms(1) show ?thesis by (simp add: ensureFarPlane_def Let_def max_def)
next
  case False
  with assms(1) show ?thesis by (simp add: ensureFarPlane_def Let_def)
qed

text \<open>
  Claim C1. After every fit on a perspective camera the far plane is at least the camera
  distance plus the largest model dimension. The close fit does not keep this: for one
  model that is a cube of side 3000 under the default settings, the close fit computes
  the distance 60000 and leaves the far plane at 50000, below 63000, without a
  projection update.
\<close>

theorem C1_close_fit_leaves_far_plane:
  "console (fitCameraToModels False (viewer_of [cube_model 3000])) =
     [CameraFitLog 3000 60000 False] \<and>
   perspective (cam (fitCameraToModels False (viewer_of [cube_model 3000]))) \<and>
   far (cam (fitCameraToModels False (viewer_of [cube_model 3000]))) = 50000 \<and>
   far (cam (fitCameraToModels False (viewer_of [cube_model 3000]))) < 60000 + 3000 \<and>
   projectionUpdates (cam (fitCameraToModels False (viewer_of [cube_model 3000]))) =
     projectionUpdates (cam (viewer_of [cube_model 3000]))"
proof -
  let ?cube = "Box \<lparr>vx = 0, vy = 0, vz = 0\<rparr> \<lparr>vx = 3000, vy = 3000, vz = 3000\<rparr>"
  have cb: "combineBoxes (loadedModels (viewer_of [cube_model 3000])) (EmptyBox, False) =
      (?cube, True)"
    by (simp add: viewer_of_def cube_model_def)
  have md: "maxDim_of (getSize ?cube) = 3000" by (simp add: maxDim_of_def)
  have fd: "finalDistance (settings (viewer_of [cube_model 3000])) False 3000 = 60000"
    by (simp add: viewer_of_def finalDistance_def baseDistance_def modelScale_def
        distanceMultiplier_def defaultSettings_def)
  show ?thesis
    unfolding fitCameraToModels_unfold [OF cb] md fd
    by (simp add: viewer_of_def initial_camera_def)
qed

text \<open>
  Claim C3. One loaded model whose box is the cube from the origin to (100, 100, 100),
  close fit, default settings: the largest dimension is 100, the scale 1, the base
  distance max (100 * 5) 200 = 500, the camera is put at the centre plus
  (450, 1000, 400) and looks at the centre (50, 50, 50).
\<close>

theorem C3_close_fit_cube:
  assumes "loadedModels v = [m]"
    and "object_box m = Some (Box \<lparr>vx = 0, vy = 0, vz = 0\<rparr> \<lparr>vx = 100, vy = 100, vz = 100\<rparr>)"
    and "settings v = defaultSettings"
  shows "combineBoxes (loadedModels v) (EmptyBox, False) =
           (Box \<lparr>vx = 0, vy = 0, vz = 0\<rparr> \<lparr>vx = 100, vy = 100, vz = 100\<rparr>, True) \<and>
         maxDim_of (getSize (Box \<lparr>vx = 0, vy = 0, vz = 0\<rparr> \<lparr>vx = 100, vy = 100, vz = 100\<rparr>)) = 100 \<and>
         modelScale (settings v) 100 = 1 \<and>
         baseDistance (settings v) False 100 = max (100 * 5) 200 \<and>
         baseDistance (settings v) False 100 = 500 \<and>
         finalDistance (settings v) False 100 = 500 \<and>
         cam_position (cam (fitCameraToModels False v)) =
           \<lparr>vx = 50 + 450, vy = 50 + 1000, vz = 50 + 400\<rparr> \<and>
         cam_target (cam (fitCameraToModels False v)) = \<lparr>vx = 50, vy = 50, vz = 50\<rparr>"
proof -
  let ?cube = "Box \<lparr>vx = 0, vy = 0, vz = 0\<rparr> \<lparr>vx = 100, vy = 100, vz = 100\<rparr>"
  have cb: "combineBoxes (loadedModels v) (EmptyBox, False) = (?cube, True)"
    using assms(1,2) by simp
  have md: "maxDim_of (getSize ?cube) = 100" by (simp add: maxDim_of_def)
  have ce: "getCenter ?cube = \<lparr>vx = 50, vy = 50, vz = 50\<rparr>" by simp
  have sc: "modelScale (settings v) 100 = 1"
    by (simp add: assms(3) modelScale_def defaultSettings_def)
  have bd: "baseDistance (settings v) False 100 = 500"
    by (simp add: assms(3) baseDistance_def distanceMultiplier_def defaultSettings_def)
  have fd: "finalDistance (settings v) False 100 = 500"
    by (simp add: finalDistance_def sc bd)
  have co: "cameraOffset (settings v) False = 2"
    by (simp add: assms(3) cameraOffset_def defaultSettings_def)
  have pos: "cam_position (cam (fitCameraToModels False v)) =
      \<lparr>vx = 50 + 450, vy = 50 + 1000, vz = 50 + 400\<rparr>"
    unfolding fitCameraToModels_unfold [OF cb] md ce by (simp add: cameraPosition_def fd co)
  have tgt: "cam_target (cam (fitCameraToModels False v)) = \<lparr>vx = 50, vy = 50, vz = 50\<rparr>"
    unfolding fitCameraToModels_unfold [OF cb] md ce by simp
  show ?thesis using cb md sc bd fd pos tgt by simp
qed

theorem C3_close_fit_cube_witness:
  "loadedModels (viewer_of [cube_model 100]) = [cube_model 100] \<and>
   settings (viewer_of [cube_model 100]) = defaultSettings \<and>
   cam_position (cam (fitCameraToModels False (viewer_of [cube_model 100]))) =
     \<lparr>vx = 500, vy = 1050, vz = 450\<rparr> \<and>
   cam_target (cam (fitCameraToModels False (viewer_of [cube_model 100]))) =
     \<lparr>vx = 50, vy = 50, vz = 50\<rparr>"
  using C3_close_fit_cube [of "viewer_of [cube_model 100]" "cube_model 100"]
  by (simp add: viewer_of_def cube_model_def)

text \<open>
  Claim C4. The thresholds are tested one after the other and a later test that holds
  overwrites the scale: the scale is one of 1, 2, 3 and 4, and above the very-large
  threshold the final distance is four times the base distance, whatever the other two
  tests say; the multipliers are never multiplied with each other.
\<close>

theorem C4_scale_override:
  "modelScale cs maxDim \<in> {1, 2, 3, 4} \<and>
   (maxDim > veryLargeModelThreshold cs \<longrightarrow>
      modelScale cs maxDim = 4 \<and>
      finalDistance cs wide maxDim = baseDistance cs wide maxDim * 4) \<and>
   (maxDim > largeModelThreshold cs \<and> \<not> maxDim > veryLargeModelThreshold cs \<longrightarrow>
      finalDistance cs wide maxDim = baseDistance cs wide maxDim * 3) \<and>
   (maxDim > mediumModelThreshold cs \<and> \<not> maxDim > largeModelThreshold cs \<and>
    \<not> maxDim > veryLargeModelThreshold cs \<longrightarrow>
      finalDistance cs wide maxDim = baseDistance cs wide maxDim * 2)"
  by (simp add: modelScale_cases finalDistance_def)

theorem C4_scale_override_witness:
  "(2000::real) > veryLargeModelThreshold defaultSettings \<and>
   2000 > largeModelThreshold defaultSettings \<and>
   2000 > mediumModelThreshold defaultSettings \<and>
   modelScale defaultSettings 2000 = 4 \<and>
   finalDistance defaultSettings False 2000 = baseDistance defaultSettings False 2000 * 4 \<and>
   finalDistance defaultSettings False 2000 = 40000 \<and>
   (700::real) > largeModelThreshold defaultSettings \<and>
   \<not> 700 > veryLargeModelThreshold defaultSettings \<and>
   finalDistance defaultSettings False 700 = baseDistance defaultSettings False 700 * 3 \<and>
   (200::real) > mediumModelThreshold defaultSettings \<and>
   \<not> 200 > largeModelThreshold defaultSettings \<and>
   finalDistance defaultSettings False 200 = baseDistance defaultSettings False 200 * 2"
  using C4_scale_override [of defaultSettings 2000 False]
    C4_scale_override [of defaultSettings 700 False]
    C4_scale_override [of defaultSettings 200 False]
  by (simp add: defaultSettings_def baseDistance_def distanceMultiplier_def)

text \<open>
  Claim C5, as stated: whenever the loaded models give a combined box, the distance of
  the close fit and of the far fit is at least the minimum distance. The settings are
  numbers that \<^verbatim>\<open>updateCameraSettings\<close> stores unchecked; with a negative multiplier
  and a negative minimum distance the scale pushes the distance below the minimum.
\<close>

theorem C5_negative_settings_counterexample:
  "console (fitCameraToModels False
      ((viewer_of [cube_model 2000])
         \<lparr>settings := defaultSettings\<lparr>closeFitMultiplier := - 1, minimumDistance := - 10\<rparr>\<rparr>)) =
     [CameraFitLog 2000 (- 40) False] \<and>
   \<not> minimumDistance (defaultSettings\<lparr>closeFitMultiplier := - 1, minimumDistance := - 10\<rparr>)
       \<le> finalDistance (defaultSettings\<lparr>closeFitMultiplier := - 1, minimumDistance := - 10\<rparr>)
            False 2000"
proof -
  let ?cs = "defaultSettings\<lparr>closeFitMultiplier := - 1, minimumDistance := - 10\<rparr>"
  let ?v = "(viewer_of [cube_model 2000])\<lparr>settings := ?cs\<rparr>"
  let ?cube = "Box \<lparr>vx = 0, vy = 0, vz = 0\<rparr> \<lparr>vx = 2000, vy = 2000, vz = 2000\<rparr>"
  have cb: "combineBoxes (loadedModels ?v) (EmptyBox, False) = (?cube, True)"
    by (simp add: viewer_of_def cube_model_def)
  have md: "maxDim_of (getSize ?cube) = 2000" by (simp add: maxDim_of_def)
  have fd: "finalDistance ?cs False 2000 = - 40"
    by (simp add: finalDistance_def baseDistance_def modelScale_def
        distanceMultiplier_def defaultSettings_def)
  have st: "settings ?v = ?cs" by simp
  show ?thesis
    unfolding fitCameraToModels_unfold [OF cb] md st fd
    by (simp add: viewer_of_def defaultSettings_def)
qed

text \<open>
  Claim C5, amended: when the minimum distance or the distance multiplier of the fit is
  not negative (the defaults have both positive) and the loaded models give a combined
  box, the distance computed by the close fit and by the far fit is at least the minimum
  distance; a box that is a single point, with largest dimension 0, is included.
\<close>

theorem C5_fit_distance_floor:
  assumes "combineBoxes (loadedModels v) (EmptyBox, False) = (cb, True)"
    and "0 \<le> minimumDistance (settings v) \<or> 0 \<le> distanceMultiplier (settings v) wide"
  shows "\<exists>maxDim distance.
           console (fitCameraToModels wide v) = console v @ [CameraFitLog maxDim distance wide] \<and>
           maxDim = maxDim_of (getSize cb) \<and>
           distance = finalDistance (settings v) wide maxDim \<and>
           minimumDistance (settings v) \<le> distance"
proof -
  have "0 \<le> maxDim_of (getSize cb)" using assms(1) by (rule combined_maxDim_nonneg)
  with assms(2) have "minimumDistance (settings v) \<le>
      finalDistance (settings v) wide (maxDim_of (getSize cb))"
    by (rule finalDistance_ge_minimum)
  then show ?thesis by (simp add: fitCameraToModels_unfold [OF assms(1)])
qed

theorem C5_fit_distance_floor_witness:
  "combineBoxes (loadedModels (viewer_of [cube_model 0])) (EmptyBox, False) =
     (Box \<lparr>vx = 0, vy = 0, vz = 0\<rparr> \<lparr>vx = 0, vy = 0, vz = 0\<rparr>, True) \<and>
   (0 \<le> minimumDistance (settings (viewer_of [cube_model 0])) \<or>
    0 \<le> distanceMultiplier (settings (viewer_of [cube_model 0])) True) \<and>
   (\<exists>maxDim distance.
      console (fitCameraToModels True (viewer_of [cube_model 0])) =
        console (viewer_of [cube_model 0]) @ [CameraFitLog maxDim distance True] \<and>
      maxDim = 0 \<and> distance = 200 \<and>
      minimumDistance (settings (viewer_of [cube_model 0])) \<le> distance)"
proof -
  let ?v = "viewer_of [cube_model 0]"
  let ?pt = "Box \<lparr>vx = 0, vy = 0, vz = 0\<rparr> \<lparr>vx = 0, vy = 0, vz = 0\<rparr>"
  have cb: "combineBoxes (loadedModels ?v) (EmptyBox, False) = (?pt, True)"
    by (simp add: viewer_of_def cube_model_def)
  have st: "0 \<le> minimumDistance (settings ?v) \<or> 0 \<le> distanceMultiplier (settings ?v) True"
    by (simp add: viewer_of_def defaultSettings_def)
  have md: "maxDim_of (getSize ?pt) = 0" by (simp add: maxDim_of_def zero_vec_def)
  have fd: "finalDistance (settings ?v) True 0 = 200"
    by (simp add: viewer_of_def finalDistance_def baseDistance_def modelScale_def
        distanceMultiplier_def defaultSettings_def)
  from C5_fit_distance_floor [OF cb st] md fd cb st show ?thesis by simp
qed

text \<open>
  Claim C10, as stated: for any fixed settings the final distance does not decrease when
  the largest dimension grows. With a negative multiplier and a negative minimum
  distance the base distance falls: it is 0 at dimension 0 and -10 at dimension 10.
\<close>

theorem C10_negative_settings_counterexample:
  "\<not> finalDistance (defaultSettings\<lparr>closeFitMultiplier := - 1, minimumDistance := - 1000\<rparr>)
        False 0
     \<le> finalDistance (defaultSettings\<lparr>closeFitMultiplier := - 1, minimumDistance := - 1000\<rparr>)
          False 10"
  by (simp add: finalDistance_def baseDistance_def modelScale_def distanceMultiplier_def
      defaultSettings_def)

text \<open>
  Claim C10, amended: for fixed settings whose minimum distance or whose distance
  multiplier for the fit mode is not negative, and a fixed fit mode, the final distance
  is a non-decreasing function of the largest dimension on the non-negative numbers.
\<close>

theorem C10_final_distance_monotone:
  assumes "0 \<le> minimumDistance cs \<or> 0 \<le> distanceMultiplier cs wide"
    and "0 \<le> a" and "a \<le> b"
  shows "finalDistance cs wide a \<le> finalDistance cs wide b"
proof -
  have "baseDistance cs wide a \<le> baseDistance cs wide b"
    using assms by (rule baseDistance_mono)
  moreover have "modelScale cs a \<le> modelScale cs b"
    using assms(3) by (rule modelScale_mono)
  moreover have "0 \<le> baseDistance cs wide b"
    using assms by (intro baseDistance_nonneg) auto
  moreover have "0 \<le> modelScale cs a"
    using modelScale_ge1 [of cs a] by simp
  ultimately show ?thesis
    unfolding finalDistance_def by (rule mult_mono)
qed

theorem C10_final_distance_monotone_witness:
  "(0 \<le> minimumDistance defaultSettings \<or> 0 \<le> distanceMultiplier defaultSettings False) \<and>
   (0::real) \<le> 90 \<and> (90::real) \<le> 150 \<and>
   finalDistance defaultSettings False 90 \<le> finalDistance defaultSettings False 150 \<and>
   finalDistance defaultSettings False 90 = 450 \<and>
   finalDistance defaultSettings False 150 = 1500"
  using C10_final_distance_monotone [of defaultSettings False 90 150]
  by (simp add: finalDistance_def baseDistance_def modelScale_def distanceMultiplier_def
      defaultSettings_def)

section \<open>Properties of the stored registry\<close>

lemma proto_inherited: "''__proto__'' \<in> set objectPrototype"
  by (simp add: objectPrototype_def)

lemma toggled_primitive:
  "toggled JNull c = JNull" "toggled (JBoolean b) c = JBoolean b"
  "toggled (JNumber n) c = JNumber n" "toggled (JString s) c = JString s"
  by (auto simp: toggled_def writeBack_def split: option.splits)

lemma toggled_twice_array:
  assumes "\<not> (xs = [] \<and> c = ''length'')"
  shows "getProperty (toggled (toggled (JArray xs) c) c) c = getProperty (JArray xs) c"
proof (cases "arrayIndex c")
  case (Some i)
  show ?thesis
  proof (cases "i < length xs \<and> xs ! i")
    case True
    then show ?thesis by (simp add: toggled_def writeBack_def Some)
  next
    case False
    then show ?thesis by (auto simp: toggled_def writeBack_def Some nth_append)
  qed
next
  case None
  with assms show ?thesis by (auto simp: toggled_def writeBack_def)
qed

lemma toggled_twice_object:
  assumes "\<not> (h c = Some False \<and> c \<in> set objectPrototype)"
  shows "getProperty (toggled (toggled (JObject h) c) c) c = getProperty (JObject h) c"
proof (cases "c \<in> set objectPrototype")
  case True
  with assms show ?thesis
    by (cases "h c") (auto simp: toggled_def writeBack_def)
next
  case False
  then have "c \<noteq> ''__proto__''" using proto_inherited by auto
  with False show ?thesis
    by (cases "h c") (auto simp: toggled_def writeBack_def)
qed

lemma toggled_infinite:
  "\<not> inherited JInfinite c \<Longrightarrow> toggled JInfinite c = JInfinite"
  using proto_inherited by (auto simp: toggled_def writeBack_def)

lemma toggled_twice:
  assumes "\<not> shadowsBuiltin (Stored parsed) c"
  shows "getProperty (toggled (toggled parsed c) c) c = getProperty parsed c"
proof (cases parsed)
  case JInfinite
  with assms have "\<not> inherited JInfinite c" by (simp add: shadowsBuiltin_def)
  then show ?thesis by (simp add: JInfinite toggled_infinite)
next
  case (JArray xs)
  with assms show ?thesis by (simp add: shadowsBuiltin_def toggled_twice_array)
next
  case (JObject h)
  with assms show ?thesis by (simp add: shadowsBuiltin_def toggled_twice_object)
qed (simp_all add: toggled_primitive)

lemma parse_registryAfter:
  "parseHidden st = Returned parsed \<Longrightarrow>
   parseHidden (registryAfter c st) = Returned (toggled parsed c)"
  by (auto simp: registryAfter_def toggled_def parseHidden_def split: attempt.splits)

lemma registryAfter_unparsed: "parseHidden st = Threw \<Longrightarrow> registryAfter c st = st"
  by (simp add: registryAfter_def)

lemma shadows_parsed:
  "parseHidden st = Returned parsed \<Longrightarrow> shadowsBuiltin st c = shadowsBuiltin (Stored parsed) c"
  by (cases st) (auto simp: parseHidden_def shadowsBuiltin_def)

lemma registryAfter_twice:
  assumes "\<not> shadowsBuiltin st c"
  shows "readEntry (registryAfter c (registryAfter c st)) c = readEntry st c"
proof (cases "parseHidden st")
  case Threw
  then show ?thesis by (simp add: registryAfter_unparsed)
next
  case (Returned parsed)
  from assms have "\<not> shadowsBuiltin (Stored parsed) c" by (simp add: shadows_parsed [OF Returned])
  then have "getProperty (toggled (toggled parsed c) c) c = getProperty parsed c"
    by (rule toggled_twice)
  then show ?thesis
    by (simp add: readEntry_def Returned parse_registryAfter [OF parse_registryAfter [OF Returned]])
qed


section \<open>Properties of the category toggle\<close>

lemma fallbackModels_length: "length (fst (fallbackModels category ms)) = length ms"
  by (induction ms) (auto split: variation_outcome.splits prod.splits)

lemma fallback_hidden [simp]:
  "hiddenCategories (toggleCategoryVisibilityFallback category v) = hiddenCategories v"
  by (simp add: toggleCategoryVisibilityFallback_def forceRenderUpdate_def Let_def
      split: prod.splits)

lemma fallback_components [simp]:
  "components (toggleCategoryVisibilityFallback category v) = components v"
  by (simp add: toggleCategoryVisibilityFallback_def forceRenderUpdate_def Let_def
      split: prod.splits)

lemma fallback_models_empty [simp]:
  "(loadedModels (toggleCategoryVisibilityFallback category v) = []) = (loadedModels v = [])"
proof -
  obtain ms' logs matched where f: "fallbackModels category (loadedModels v) = (ms', logs, matched)"
    by (cases "fallbackModels category (loadedModels v)") auto
  with fallbackModels_length [of category "loadedModels v"]
  have "length ms' = length (loadedModels v)" by simp
  then have "(ms' = []) = (loadedModels v = [])" by (metis length_0_conv)
  then show ?thesis
    by (simp add: toggleCategoryVisibilityFallback_def forceRenderUpdate_def f Let_def)
qed


lemma hider_set_empty [simp]: "(hider_set b result ms = []) = (ms = [])"
  by (simp add: hider_set_def)




lemma toggle_components [simp]:
  "components (fst (toggleCategoryVisibility category v)) = components v"
  by (auto simp: toggleCategoryVisibility_def toggle_try_def Let_def forceRenderUpdate_def
      split: attempt.splits option.splits prod.splits if_splits)

lemma toggle_models_empty [simp]:
  "(loadedModels (fst (toggleCategoryVisibility category v)) = []) = (loadedModels v = [])"
  by (auto simp: toggleCategoryVisibility_def toggle_try_def Let_def forceRenderUpdate_def
      split: attempt.splits option.splits prod.splits if_splits)

lemma toggle_renderer [simp]:
  "renderer_ready (fst (toggleCategoryVisibility category v)) = renderer_ready v"
  by (auto simp: toggleCategoryVisibility_def toggle_try_def Let_def forceRenderUpdate_def
      toggleCategoryVisibilityFallback_def
      split: attempt.splits option.splits prod.splits if_splits)

text \<open>The registry after one toggle.\<close>

lemma toggle_registry:
  "hiddenCategories (fst (toggleCategoryVisibility category v)) =
     (if primaryRuns category v then registryAfter category (hiddenCategories v)
      else hiddenCategories v)"
  by (auto simp: toggleCategoryVisibility_def toggle_try_def Let_def forceRenderUpdate_def
      primaryRuns_def registryAfter_def writeBack_def readEntry_def
      split: attempt.splits prod.splits if_splits)



lemma wall_total: "totalItems [(''walls.frag'', Some wall_ids)] = 12"
  by (simp add: totalItems_def wall_ids_def)

text \<open>
  Claim C7, as stated: for every category and every registry state two toggles in
  succession bring the entry of the category back to its hidden or shown state. Three
  runs where they do not. A hider that completes when it shows and throws when it hides:
  the first toggle shows a hidden category and deletes its entry, the second goes to the
  fallback and the entry stays shown. A registry object with a falsy entry under
  \<^verbatim>\<open>constructor\<close>: the first toggle sets the entry, the second deletes it, and the
  category then reads as hidden through \<^verbatim>\<open>Object.prototype\<close>. The empty array and the
  category \<^verbatim>\<open>length\<close>: the first toggle sets the length to 1, the second cannot
  delete it. A registry that is a numeral beyond the range of a double and the category
  \<^verbatim>\<open>toFixed\<close>: the first toggle writes the infinity back as \<^verbatim>\<open>null\<close>, which the
  second cannot read.
\<close>

theorem C7_toggle_twice_counterexample:
  "readEntry (hiddenCategories
      (registry_viewer hiding_throws (JObject [''IFCWALL'' \<mapsto> True]))) ''IFCWALL'' = Returned True \<and>
   readEntry (hiddenCategories
      (fst (toggleCategoryVisibility ''IFCWALL''
         (fst (toggleCategoryVisibility ''IFCWALL''
            (registry_viewer hiding_throws (JObject [''IFCWALL'' \<mapsto> True]))))))) ''IFCWALL'' =
     Returned False \<and>
   readEntry (hiddenCategories
      (registry_viewer hider_completes (JObject [''constructor'' \<mapsto> False]))) ''constructor'' =
     Returned False \<and>
   readEntry (hiddenCategories
      (fst (toggleCategoryVisibility ''constructor''
         (fst (toggleCategoryVisibility ''constructor''
            (registry_viewer hider_completes (JObject [''constructor'' \<mapsto> False]))))))) ''constructor'' =
     Returned True \<and>
   readEntry (hiddenCategories (registry_viewer hider_completes (JArray []))) ''length'' =
     Returned False \<and>
   readEntry (hiddenCategories
      (fst (toggleCategoryVisibility ''length''
         (fst (toggleCategoryVisibility ''length''
            (registry_viewer hider_completes (JArray [])))))))
      ''length'' = Returned True \<and>
   readEntry (hiddenCategories (registry_viewer hider_completes JInfinite)) ''toFixed'' =
     Returned True \<and>
   readEntry (hiddenCategories
      (fst (toggleCategoryVisibility ''toFixed''
         (fst (toggleCategoryVisibility ''toFixed''
            (registry_viewer hider_completes JInfinite))))))
      ''toFixed'' = Threw"
proof -
  have run: "primaryRuns c (registry_viewer t j) =
      (case getProperty j c of Threw \<Rightarrow> True | Returned hid \<Rightarrow> \<not> t hid)" for c t j
    by (simp add: primaryRuns_def registry_viewer_def viewer_of_def finding_engine_def
        wall_total readEntry_def parseHidden_def split: attempt.splits)
  have reg: "hiddenCategories (registry_viewer t j) = Stored j" for t j
    by (simp add: registry_viewer_def)
  have run': "primaryRuns c (fst (toggleCategoryVisibility c (registry_viewer t j))) =
      (case readEntry (hiddenCategories (fst (toggleCategoryVisibility c (registry_viewer t j)))) c
       of Threw \<Rightarrow> True | Returned hid \<Rightarrow> \<not> t hid)" for c t j
    by (simp add: primaryRuns_def)
       (simp add: registry_viewer_def viewer_of_def finding_engine_def wall_total
          split: attempt.splits)
  have 1: "hiddenCategories (fst (toggleCategoryVisibility ''IFCWALL''
      (registry_viewer hiding_throws (JObject [''IFCWALL'' \<mapsto> True])))) = Stored (JObject Map.empty)"
    by (simp add: toggle_registry run reg registryAfter_def parseHidden_def writeBack_def
        hiding_throws_def hider_completes_def)
  have 2: "hiddenCategories (fst (toggleCategoryVisibility ''constructor''
      (registry_viewer hider_completes (JObject [''constructor'' \<mapsto> False])))) =
      Stored (JObject [''constructor'' \<mapsto> True])"
    by (simp add: toggle_registry run reg registryAfter_def parseHidden_def writeBack_def
        hiding_throws_def hider_completes_def)
  have 3: "hiddenCategories (fst (toggleCategoryVisibility ''length''
      (registry_viewer hider_completes (JArray [])))) = Stored (JArray [False])"
    by (simp add: toggle_registry run reg registryAfter_def parseHidden_def writeBack_def
        arrayIndex_def canonicalIndex_def digitValue_def hider_completes_def)
  have 4: "hiddenCategories (fst (toggleCategoryVisibility ''toFixed''
      (registry_viewer hider_completes JInfinite))) = Stored JNull"
    by (simp add: toggle_registry run reg registryAfter_def parseHidden_def writeBack_def
        numberPrototype_def hider_completes_def)
  have a1: "readEntry (hiddenCategories
      (registry_viewer hiding_throws (JObject [''IFCWALL'' \<mapsto> True]))) ''IFCWALL'' =
      Returned True"
    by (simp add: reg readEntry_def parseHidden_def)
  have a2: "readEntry (hiddenCategories
      (fst (toggleCategoryVisibility ''IFCWALL''
         (fst (toggleCategoryVisibility ''IFCWALL''
            (registry_viewer hiding_throws (JObject [''IFCWALL'' \<mapsto> True]))))))) ''IFCWALL'' =
      Returned False"
    by (simp add: hiding_throws_def toggle_registry [of _ "fst _"] run' 1 readEntry_def
        parseHidden_def objectPrototype_def)
  have a3: "readEntry (hiddenCategories
      (registry_viewer hider_completes (JObject [''constructor'' \<mapsto> False]))) ''constructor'' =
      Returned False"
    by (simp add: reg readEntry_def parseHidden_def)
  have a4: "readEntry (hiddenCategories
      (fst (toggleCategoryVisibility ''constructor''
         (fst (toggleCategoryVisibility ''constructor''
            (registry_viewer hider_completes (JObject [''constructor'' \<mapsto> False]))))))) ''constructor'' =
      Returned True"
    by (simp add: hider_completes_def toggle_registry [of _ "fst _"] run' 2 readEntry_def
        parseHidden_def registryAfter_def writeBack_def objectPrototype_def)
  have a5: "readEntry (hiddenCategories (registry_viewer hider_completes (JArray []))) ''length'' =
      Returned False"
    by (simp add: reg readEntry_def parseHidden_def arrayIndex_def canonicalIndex_def
        digitValue_def)
  have a6: "readEntry (hiddenCategories
      (fst (toggleCategoryVisibility ''length''
         (fst (toggleCategoryVisibility ''length''
            (registry_viewer hider_completes (JArray [])))))))
      ''length'' = Returned True"
    by (simp add: hider_completes_def toggle_registry [of _ "fst _"] run' 3 readEntry_def
        parseHidden_def registryAfter_def writeBack_def arrayIndex_def canonicalIndex_def
        digitValue_def)
  have a7: "readEntry (hiddenCategories (registry_viewer hider_completes JInfinite)) ''toFixed'' =
      Returned True"
    by (simp add: reg readEntry_def parseHidden_def numberPrototype_def)
  have a8: "readEntry (hiddenCategories
      (fst (toggleCategoryVisibility ''toFixed''
         (fst (toggleCategoryVisibility ''toFixed''
            (registry_viewer hider_completes JInfinite))))))
      ''toFixed'' = Threw"
    by (simp add: hider_completes_def toggle_registry [of _ "fst _"] run' 4 readEntry_def
        parseHidden_def registryAfter_def writeBack_def)
  show ?thesis by (intro conjI a1 a2 a3 a4 a5 a6 a7 a8)
qed

text \<open>
  Claim C7, amended: for every category and every registry state, two toggles of the
  category in succession, the second started when the first has completed, bring what
  the toggle reads as the hidden or shown state of the category back to what it was,
  provided that the engine's \<^verbatim>\<open>hider.set\<close> completes on both calls, that the registry
  holds no falsy entry for the category under a name of \<^verbatim>\<open>Object.prototype\<close>, that it
  is not the empty array when the category is \<^verbatim>\<open>length\<close>, and that it is not a numeral
  beyond the range of a double when the category is a name that numbers inherit.
\<close>

theorem C7_toggle_twice_restores_entry:
  assumes "\<forall>b. \<not> hider_throws (components v) b"
    and "\<not> shadowsBuiltin (hiddenCategories v) category"
  shows "readEntry (hiddenCategories
            (fst (toggleCategoryVisibility category
               (fst (toggleCategoryVisibility category v))))) category =
         readEntry (hiddenCategories v) category"
proof -
  let ?v1 = "fst (toggleCategoryVisibility category v)"
  have p: "primaryRuns category w =
      (loadedModels w \<noteq> [] \<and>
       (case classifier_find (components w) category of
          Threw \<Rightarrow> False | Returned result \<Rightarrow> 0 < totalItems result))"
    if "components w = components v" for w
    using assms(1) that by (simp add: primaryRuns_def split: attempt.splits)
  have same: "primaryRuns category ?v1 = primaryRuns category v"
    by (simp add: p)
  show ?thesis
  proof (cases "primaryRuns category v")
    case True
    with same show ?thesis
      by (simp add: toggle_registry [of category ?v1] toggle_registry [of category v]
          registryAfter_twice [OF assms(2)])
  next
    case False
    with same show ?thesis
      by (simp add: toggle_registry [of category ?v1] toggle_registry [of category v])
  qed
qed

text \<open>The example of one model with twelve walls.\<close>

lemma wall_found:
  "loadedModels wall_viewer \<noteq> []"
  "classifier_find (components wall_viewer) ''IFCWALL'' =
     Returned [(''walls.frag'', Some wall_ids)]"
  "\<forall>b. \<not> hider_throws (components wall_viewer) b"
  "parseHidden (hiddenCategories wall_viewer) = Returned (JObject Map.empty)"
  by (simp_all add: wall_viewer_def viewer_of_def wall_engine_def parseHidden_def)

lemma wall_name: "''IFCWALL'' \<notin> set objectPrototype"
  by (simp add: objectPrototype_def)

theorem C7_toggle_twice_restores_entry_witness:
  "(\<forall>b. \<not> hider_throws (components wall_viewer) b) \<and>
   \<not> shadowsBuiltin (hiddenCategories wall_viewer) ''IFCWALL'' \<and>
   readEntry (hiddenCategories wall_viewer) ''IFCWALL'' = Returned False \<and>
   readEntry (hiddenCategories (fst (toggleCategoryVisibility ''IFCWALL'' wall_viewer)))
     ''IFCWALL'' = Returned True \<and>
   readEntry (hiddenCategories
      (fst (toggleCategoryVisibility ''IFCWALL''
         (fst (toggleCategoryVisibility ''IFCWALL'' wall_viewer))))) ''IFCWALL'' =
     Returned False"
proof -
  have a: "\<forall>b. \<not> hider_throws (components wall_viewer) b" by (rule wall_found)
  have b: "\<not> shadowsBuiltin (hiddenCategories wall_viewer) ''IFCWALL''"
    by (simp add: wall_viewer_def viewer_of_def shadowsBuiltin_def)
  have c: "readEntry (hiddenCategories wall_viewer) ''IFCWALL'' = Returned False"
    by (simp add: readEntry_def wall_found wall_name)
  have r: "primaryRuns ''IFCWALL'' wall_viewer"
    by (simp add: primaryRuns_def wall_found wall_total c)
  have d: "readEntry (hiddenCategories (fst (toggleCategoryVisibility ''IFCWALL'' wall_viewer)))
      ''IFCWALL'' = Returned True"
  proof -
    have "registryAfter ''IFCWALL'' (hiddenCategories wall_viewer) =
        Stored (JObject [''IFCWALL'' \<mapsto> True])"
      by (simp add: registryAfter_def wall_found writeBack_def wall_name)
    then show ?thesis by (simp add: toggle_registry r readEntry_def parseHidden_def)
  qed
  from C7_toggle_twice_restores_entry [OF a b] a b c d show ?thesis by simp
qed





section \<open>Properties of the fallback\<close>

lemma variations_wall: "variations ''IFCWALL'' = [''IFCWALL'', ''ifcwall'', ''WALL'', ''wall'']"
  by (simp add: variations_def toLowerCase_def toLowerChar_def)

text \<open>
  Claim C8. The fallback tries the name variations in order and the first one with
  elements wins, and this flipping applies across all loaded models. With two loaded
  models that both know the category under its lower-case name, the fallback for
  \<^verbatim>\<open>IFCWALL\<close> hides the two walls of the first model under the variation
  \<^verbatim>\<open>ifcwall\<close> and returns: the walls of the second model stay visible.
\<close>

theorem C8_fallback_stops_at_first_model:
  "map fileName (loadedModels (toggleCategoryVisibilityFallback ''IFCWALL''
      (viewer_of [lower_model ''a.frag'', lower_model ''b.frag'']))) = [''a.frag'', ''b.frag''] \<and>
   \<not> visible (loadedModels (toggleCategoryVisibilityFallback ''IFCWALL''
      (viewer_of [lower_model ''a.frag'', lower_model ''b.frag''])) ! 0) 1 \<and>
   \<not> visible (loadedModels (toggleCategoryVisibilityFallback ''IFCWALL''
      (viewer_of [lower_model ''a.frag'', lower_model ''b.frag''])) ! 0) 2 \<and>
   visible (loadedModels (toggleCategoryVisibilityFallback ''IFCWALL''
      (viewer_of [lower_model ''a.frag'', lower_model ''b.frag''])) ! 1) 1 \<and>
   visible (loadedModels (toggleCategoryVisibilityFallback ''IFCWALL''
      (viewer_of [lower_model ''a.frag'', lower_model ''b.frag''])) ! 1) 2 \<and>
   console (toggleCategoryVisibilityFallback ''IFCWALL''
      (viewer_of [lower_model ''a.frag'', lower_model ''b.frag''])) =
     [FallbackSucceeded ''ifcwall'', ForcedRender]"
proof -
  have t: "tryVariations (lower_model ''a.frag'') (variations ''IFCWALL'') =
      VariationMatched ''ifcwall'' (setVisible [1, 2] False (lower_model ''a.frag''))"
    by (simp add: variations_wall lower_model_def)
  have f: "fallbackModels ''IFCWALL'' [lower_model ''a.frag'', lower_model ''b.frag''] =
      ([setVisible [1, 2] False (lower_model ''a.frag''), lower_model ''b.frag''],
       [FallbackSucceeded ''ifcwall''], True)"
    by (simp add: t)
  have lm: "loadedModels (viewer_of [lower_model ''a.frag'', lower_model ''b.frag'']) =
      [lower_model ''a.frag'', lower_model ''b.frag'']"
    by (simp add: viewer_of_def)
  have tg: "toggleCategoryVisibilityFallback ''IFCWALL''
      (viewer_of [lower_model ''a.frag'', lower_model ''b.frag'']) =
    forceRenderUpdate ((viewer_of [lower_model ''a.frag'', lower_model ''b.frag''])
      \<lparr>loadedModels := [setVisible [1, 2] False (lower_model ''a.frag''), lower_model ''b.frag''],
       console := console (viewer_of [lower_model ''a.frag'', lower_model ''b.frag'']) @
         [FallbackSucceeded ''ifcwall'']\<rparr>)"
    unfolding toggleCategoryVisibilityFallback_def lm f by simp
  show ?thesis
    unfolding tg
    by (simp add: forceRenderUpdate_def viewer_of_def setVisible_def lower_model_def)
qed

section \<open>Properties of picking\<close>

lemma raycastModels_no_hit:
  "\<forall>m \<in> set ms. \<not> reportsHit mouse rr m \<Longrightarrow> snd (raycastModels mouse rr ms) = None"
  by (induction ms)
     (auto simp: reportsHit_def split: option.splits attempt.splits raycast_result.splits
        prod.splits)

text \<open>
  Claim C9, as stated: for every pick where no loaded model reports a hit the panel is
  reset. With no model loaded the listener returns at its guard: a panel that shows the
  details of a component of a model removed since keeps showing them.
\<close>

theorem C9_no_models_counterexample:
  "loadedModels ((viewer_of [])\<lparr>propertiesContent := Some (ComponentDetails ''walls.frag'' 3)\<rparr>) = [] \<and>
   propertiesContent (setupPicking_click (10, 20)
      ((viewer_of [])\<lparr>propertiesContent := Some (ComponentDetails ''walls.frag'' 3)\<rparr>)) =
     Some (ComponentDetails ''walls.frag'' 3) \<and>
   propertiesContent (setupPicking_click (10, 20)
      ((viewer_of [])\<lparr>propertiesContent := Some (ComponentDetails ''walls.frag'' 3)\<rparr>)) \<noteq>
     Some Placeholder"
  by (simp add: setupPicking_click_def viewer_of_def)

text \<open>
  Claim C9, amended: for every pick while at least one model is loaded (and the fragments
  manager exists), if no loaded model reports a hit, be it that it has no ray cast, that
  the renderer is missing, that the ray cast throws or that it returns nothing, the
  properties panel is reset to the placeholder of the empty selection.
\<close>

theorem C9_no_hit_resets_panel:
  assumes "fragments_ready v" and "loadedModels v \<noteq> []"
    and "\<forall>m \<in> set (loadedModels v). \<not> reportsHit mouse (renderer_ready v) m"
  shows "propertiesContent (setupPicking_click mouse v) =
     (case propertiesContent v of None \<Rightarrow> None | Some shown \<Rightarrow> Some Placeholder)"
proof -
  from assms(3) have "snd (raycastModels mouse (renderer_ready v) (loadedModels v)) = None"
    by (rule raycastModels_no_hit)
  then obtain logs where
    "raycastModels mouse (renderer_ready v) (loadedModels v) = (logs, None)"
    by (cases "raycastModels mouse (renderer_ready v) (loadedModels v)") auto
  with assms(1,2) show ?thesis
    by (simp add: setupPicking_click_def split: option.splits)
qed

theorem C9_no_hit_resets_panel_witness:
  "fragments_ready (wall_viewer\<lparr>propertiesContent := Some (ComponentDetails ''walls.frag'' 3)\<rparr>) \<and>
   loadedModels (wall_viewer\<lparr>propertiesContent := Some (ComponentDetails ''walls.frag'' 3)\<rparr>) =
     [wall_model] \<and>
   \<not> reportsHit (10, 20) True wall_model \<and>
   propertiesContent (setupPicking_click (10, 20)
      (wall_viewer\<lparr>propertiesContent := Some (ComponentDetails ''walls.frag'' 3)\<rparr>)) =
     Some Placeholder"
proof -
  let ?v = "wall_viewer\<lparr>propertiesContent := Some (ComponentDetails ''walls.frag'' 3)\<rparr>"
  have a: "fragments_ready ?v" by (simp add: wall_viewer_def viewer_of_def)
  have b: "loadedModels ?v = [wall_model]" by (simp add: wall_viewer_def viewer_of_def)
  have c: "\<not> reportsHit (10, 20) True wall_model" by (simp add: reportsHit_def wall_model_def)
  have r: "renderer_ready ?v" by (simp add: wall_viewer_def viewer_of_def)
  from b have d: "loadedModels ?v \<noteq> []" by simp
  from b c r have e: "\<forall>m \<in> set (loadedModels ?v). \<not> reportsHit (10, 20) (renderer_ready ?v) m"
    by simp
  from C9_no_hit_resets_panel [OF a d e] a b c show ?thesis by simp
qed

section \<open>Properties of the readiness wait\<close>

lemma checkReady_late:
  "mw < elapsed env k \<Longrightarrow>
   checkReady env mw k evs = Some (evs @ [(k, TimeoutWarning mw), (k, Resolve)])"
  by (subst checkReady.simps) (simp add: elapsed_def)

lemma checkReady_children:
  "\<not> mw < elapsed env k \<Longrightarrow> children (polls env k) = Children True \<Longrightarrow>
   checkReady env mw k evs = Some (evs @ [(k, ReadyLog (elapsed env k)), (k, Resolve)])"
  by (subst checkReady.simps) (simp add: elapsed_def)

lemma checkReady_next:
  "\<not> mw < elapsed env k \<Longrightarrow> children (polls env k) \<noteq> Children True \<Longrightarrow>
   checkReady env mw k evs = checkReady env mw (Suc k) (evs @ run_events env k)"
  by (subst checkReady.simps)
     (auto simp: elapsed_def run_events_def split: child_probe.splits merged_probe.splits)

text \<open>
  The runs from \<open>k\<close> up to the first run \<open>S\<close> that is late or finds geometry in the
  children: each earlier run adds its \<open>run_events\<close>, the last one its \<open>final_events\<close>.
\<close>

lemma checkReady_closed_form:
  assumes "\<forall>j. k \<le> j \<and> j < S \<longrightarrow>
             \<not> mw < elapsed env j \<and> children (polls env j) \<noteq> Children True"
    and "mw < elapsed env S \<or> children (polls env S) = Children True"
    and "k \<le> S"
  shows "checkReady env mw k evs =
     Some (evs @ concat (map (run_events env) [k..<S]) @ final_events env mw S)"
  using assms
proof (induction "S - k" arbitrary: k evs)
  case 0
  then have "k = S" by simp
  with "0.prems"(2) show ?case
    by (auto simp: final_events_def checkReady_late checkReady_children)
next
  case (Suc n)
  then have lt: "k < S" by simp
  with Suc.prems(1) have a: "\<not> mw < elapsed env k" "children (polls env k) \<noteq> Children True"
    by auto
  have "checkReady env mw (Suc k) (evs @ run_events env k) =
      Some ((evs @ run_events env k) @ concat (map (run_events env) [Suc k..<S]) @
        final_events env mw S)"
  proof (rule Suc.hyps(1))
    show "n = S - Suc k" using Suc.hyps(2) by simp
    show "\<forall>j. Suc k \<le> j \<and> j < S \<longrightarrow>
        \<not> mw < elapsed env j \<and> children (polls env j) \<noteq> Children True"
      using Suc.prems(1) by simp
    show "mw < elapsed env S \<or> children (polls env S) = Children True" by (rule Suc.prems(2))
    show "Suc k \<le> S" using lt by simp
  qed
  then show ?case
    by (simp add: checkReady_next [OF a] upt_conv_Cons [OF lt])
qed

lemma never_ready_trace:
  "waitForModelReady never_ready 120 = Some [(3, TimeoutWarning 120), (3, Resolve)]"
  by (simp add: waitForModelReady_def checkReady.simps never_ready_def)

text \<open>With an honoured timer the \<open>k\<close>-th run is at least \<open>k\<close> intervals after the start.\<close>

lemma elapsed_lower: "timer_honoured env \<Longrightarrow> int k * checkInterval \<le> elapsed env k"
proof (induction k)
  case 0
  then show ?case by (simp add: timer_honoured_def elapsed_def)
next
  case (Suc k)
  from Suc.prems have "now (polls env k) + checkInterval \<le> now (polls env (Suc k))"
    by (simp add: timer_honoured_def)
  with Suc show ?case by (simp add: elapsed_def algebra_simps)
qed

lemma late_run_exists:
  assumes "timer_honoured env"
  shows "mw < elapsed env (nat (mw div checkInterval) + 1)"
proof -
  let ?n = "nat (mw div checkInterval) + 1"
  have "mw < (mw div 50 + 1) * 50" by presburger
  also have "\<dots> \<le> int ?n * 50" by (simp add: checkInterval_def)
  also have "\<dots> \<le> elapsed env ?n"
    using elapsed_lower [OF assms, of ?n] by (simp add: checkInterval_def)
  finally show ?thesis .
qed

lemma run_events_index: "e \<in> set (run_events env j) \<Longrightarrow> fst e = j"
  by (auto simp: run_events_def split: child_probe.splits merged_probe.splits if_splits)

lemma run_events_no_geometry:
  "\<not> geometryAt env j \<Longrightarrow> e \<in> set (run_events env j) \<Longrightarrow> snd e = ReadinessError"
  by (auto simp: run_events_def geometryAt_def split: child_probe.splits merged_probe.splits
      if_splits)

lemma final_events_resolve: "(S, Resolve) \<in> set (final_events env mw S)"
  by (simp add: final_events_def)

lemma final_events_index: "e \<in> set (final_events env mw S) \<Longrightarrow> fst e = S"
  by (auto simp: final_events_def split: if_splits)

text \<open>
  What holds of the wait when the timer is honoured. The runs end and the promise is
  resolved. \<open>K\<close> is the first run that reads an elapsed time above the maximum wait; it
  comes after at most \<open>maxWaitTime div 50 + 1\<close> earlier runs, \<^verbatim>\<open>resolve\<close> is called in a
  run no later than \<open>K\<close>, and no run follows \<open>K\<close>. When geometry is there at the first
  run, the readiness message and the call of \<^verbatim>\<open>resolve\<close> of that run come first; when it
  is there by the children they are all there is. When geometry never comes, the console
  shows at most errors of the probes until run \<open>K\<close> prints the timeout warning and
  resolves.
\<close>

lemma wait_resolves:
  assumes "timer_honoured env"
  shows "\<exists>tr K. waitForModelReady env mw = Some tr \<and>
           mw < elapsed env K \<and> (\<forall>j<K. elapsed env j \<le> mw) \<and>
           K \<le> nat (mw div checkInterval) + 1 \<and>
           (\<exists>j\<le>K. (j, Resolve) \<in> set tr) \<and> (\<forall>e \<in> set tr. fst e \<le> K) \<and>
           (geometryAt env 0 \<and> elapsed env 0 \<le> mw \<longrightarrow>
              (\<exists>rest. tr = (0, ReadyLog (elapsed env 0)) # (0, Resolve) # rest) \<and>
              untilResolved tr = [(0, ReadyLog (elapsed env 0))]) \<and>
           (children (polls env 0) = Children True \<and> elapsed env 0 \<le> mw \<longrightarrow>
              tr = [(0, ReadyLog (elapsed env 0)), (0, Resolve)]) \<and>
           ((\<forall>j. \<not> geometryAt env j) \<longrightarrow>
              (\<exists>errs. tr = errs @ [(K, TimeoutWarning mw), (K, Resolve)] \<and>
                      (\<forall>e \<in> set errs. snd e = ReadinessError)))"
proof -
  define late where "late j \<longleftrightarrow> mw < elapsed env j" for j
  define stop where "stop j \<longleftrightarrow> late j \<or> children (polls env j) = Children True" for j
  define K where "K = (LEAST j. late j)"
  define S where "S = (LEAST j. stop j)"
  define tr where "tr = concat (map (run_events env) [0..<S]) @ final_events env mw S"
  have ex: "late (nat (mw div checkInterval) + 1)"
    unfolding late_def using assms by (rule late_run_exists)
  have K1: "late K" unfolding K_def using ex by (rule LeastI)
  have K2: "K \<le> nat (mw div checkInterval) + 1" unfolding K_def using ex by (rule Least_le)
  have K3: "\<not> late j" if "j < K" for j using that unfolding K_def by (rule not_less_Least)
  have "stop K" using K1 by (simp add: stop_def)
  then have S1: "stop S" and S2: "S \<le> K"
    unfolding S_def by (rule LeastI, rule Least_le)
  have S3: "\<not> stop j" if "j < S" for j using that unfolding S_def by (rule not_less_Least)
  have run: "waitForModelReady env mw = Some tr"
    unfolding waitForModelReady_def tr_def
    using checkReady_closed_form [of 0 S mw env "[]"] S1 S3
    by (simp add: stop_def late_def)
  have res: "\<exists>j\<le>K. (j, Resolve) \<in> set tr"
    using S2 final_events_resolve [of S env mw] by (auto simp: tr_def)
  have idx: "\<forall>e \<in> set tr. fst e \<le> K"
  proof
    fix e assume "e \<in> set tr"
    then consider j where "j < S" "e \<in> set (run_events env j)" | "e \<in> set (final_events env mw S)"
      by (auto simp: tr_def)
    then show "fst e \<le> K"
    proof cases
      case 1
      then show ?thesis using S2 run_events_index [of e env j] by simp
    next
      case 2
      then show ?thesis using S2 final_events_index [of e env mw S] by simp
    qed
  qed
  have kids: "tr = [(0, ReadyLog (elapsed env 0)), (0, Resolve)]"
    if c: "children (polls env 0) = Children True" and e0: "elapsed env 0 \<le> mw"
  proof -
    from c have "stop 0" by (simp add: stop_def)
    then have "S = 0" using S3 [of 0] by auto
    then show ?thesis using e0 by (simp add: tr_def final_events_def)
  qed
  have first: "(\<exists>rest. tr = (0, ReadyLog (elapsed env 0)) # (0, Resolve) # rest) \<and>
      untilResolved tr = [(0, ReadyLog (elapsed env 0))]"
    if g: "geometryAt env 0" and e0: "elapsed env 0 \<le> mw"
  proof (cases "children (polls env 0) = Children True")
    case True
    then show ?thesis using kids [OF True e0] by (simp add: untilResolved_def)
  next
    case False
    with g have m: "children (polls env 0) = Children False" "merged (polls env 0) = MergedBox True"
      by (auto simp: geometryAt_def)
    from False e0 have "\<not> stop 0" by (simp add: stop_def late_def)
    with S1 have "0 < S" by (cases S) auto
    then have "[0..<S] = 0 # [Suc 0..<S]" by (simp add: upt_conv_Cons)
    moreover have "run_events env 0 = [(0, ReadyLog (elapsed env 0)), (0, Resolve)]"
      using m by (simp add: run_events_def)
    ultimately show ?thesis by (simp add: tr_def untilResolved_def)
  qed
  have never: "\<exists>errs. tr = errs @ [(K, TimeoutWarning mw), (K, Resolve)] \<and>
      (\<forall>e \<in> set errs. snd e = ReadinessError)"
    if n: "\<forall>j. \<not> geometryAt env j"
  proof -
    from n have "stop j = late j" for j by (auto simp: stop_def geometryAt_def)
    then have "S = K" by (simp add: S_def K_def)
    then have f: "final_events env mw S = [(K, TimeoutWarning mw), (K, Resolve)]"
      using K1 by (simp add: final_events_def late_def)
    have "\<forall>e \<in> set (concat (map (run_events env) [0..<S])). snd e = ReadinessError"
    proof
      fix e assume "e \<in> set (concat (map (run_events env) [0..<S]))"
      then obtain j where "e \<in> set (run_events env j)" by auto
      moreover from n have "\<not> geometryAt env j" by simp
      ultimately show "snd e = ReadinessError" by (rule run_events_no_geometry [rotated])
    qed
    then show ?thesis using f unfolding tr_def by blast
  qed
  from K1 have l: "mw < elapsed env K" by (simp add: late_def)
  have b: "\<forall>j<K. elapsed env j \<le> mw"
  proof (intro allI impI)
    fix j assume "j < K"
    then have "\<not> late j" by (rule K3)
    then show "elapsed env j \<le> mw" by (simp add: late_def)
  qed
  from run l b K2 res idx first kids never show ?thesis by blast
qed

text \<open>
  Claim C6. The wait always resolves and is bounded, and when geometry is present at the
  first poll it resolves at once without a timeout warning. The wait does resolve at
  once, but the warning is printed all the same when the geometry is found through the
  merged box: for a model whose children carry no geometry and whose merged box is ready
  at every run, with a run every 50 ms, the promise is resolved in the first run, the
  \<^verbatim>\<open>return\<close> in the \<^verbatim>\<open>then\<close> callback leaves the callback only, the runs go on, and
  the first late run (the third for a maximum wait of 60 ms, run 101 for the default of
  5000 ms) prints the timeout warning.
\<close>

theorem C6_merged_box_keeps_polling:
  "geometryAt merged_only 0 \<and> elapsed merged_only 0 = 0 \<and> timer_honoured merged_only \<and>
   waitForModelReady merged_only 60 =
     Some [(0, ReadyLog 0), (0, Resolve), (1, ReadyLog 50), (1, Resolve),
           (2, TimeoutWarning 60), (2, Resolve)] \<and>
   (\<exists>rest. waitForModelReady merged_only 5000 =
      Some ((0, ReadyLog 0) # (0, Resolve) # rest @
            [(101, TimeoutWarning 5000), (101, Resolve)]))"
proof -
  have g: "geometryAt merged_only 0" by (simp add: geometryAt_def merged_only_def)
  have e: "elapsed merged_only k = 50 * int k" for k
    by (simp add: elapsed_def merged_only_def)
  have t: "timer_honoured merged_only"
    by (simp add: timer_honoured_def merged_only_def checkInterval_def)
  have s: "waitForModelReady merged_only 60 =
     Some [(0, ReadyLog 0), (0, Resolve), (1, ReadyLog 50), (1, Resolve),
           (2, TimeoutWarning 60), (2, Resolve)]"
    by (simp add: waitForModelReady_def checkReady.simps merged_only_def)
  have c: "children (polls merged_only j) \<noteq> Children True" for j
    by (simp add: merged_only_def)
  have "checkReady merged_only 5000 0 [] =
      Some ([] @ concat (map (run_events merged_only) [0..<101]) @
        final_events merged_only 5000 101)"
    by (rule checkReady_closed_form) (auto simp: e c)
  moreover have "[0..<101] = 0 # [Suc 0..<101]" by (simp add: upt_conv_Cons)
  moreover have "run_events merged_only 0 = [(0, ReadyLog 0), (0, Resolve)]"
    by (simp add: run_events_def merged_only_def elapsed_def)
  moreover have "final_events merged_only 5000 101 =
      [(101, TimeoutWarning 5000), (101, Resolve)]"
    by (simp add: final_events_def e)
  ultimately have "waitForModelReady merged_only 5000 =
      Some ((0, ReadyLog 0) # (0, Resolve) # concat (map (run_events merged_only) [Suc 0..<101]) @
        [(101, TimeoutWarning 5000), (101, Resolve)])"
    by (simp add: waitForModelReady_def)
  then have "\<exists>rest. waitForModelReady merged_only 5000 =
      Some ((0, ReadyLog 0) # (0, Resolve) # rest @
            [(101, TimeoutWarning 5000), (101, Resolve)])"
    by blast
  with g e [of 0] t s show ?thesis by simp
qed

end
